theory Spec2Isabelle
  imports Complex_Main "HOL-Library.Word" "HOL-Library.Char_ord" "HOL-Library.List_Lexorder"
begin

section \<open>Data model (main.go, lines 12-59)\<close>

text \<open>
  Go's \<open>int\<close> is taken to be 64 bits wide. A \<open>[]string\<close> is \<open>None\<close> when it is the nil
  slice and \<open>Some xs\<close> otherwise: encoding/json writes the nil slice as \<open>null\<close> and
  the empty slice as \<open>[]\<close>.

  A \<open>float64\<close> is finite, an infinity or NaN. The program does no arithmetic on floats:
  it stores literals and scanned input, compares with zero, and prints. A finite value is
  written \<open>Finite q\<close> for a rational \<open>q\<close> that rounds to it (to nearest, ties to even),
  so the literal \<open>0.1\<close> is \<open>Finite (1/10)\<close>.
\<close>

type_synonym go_int = "64 word"

datatype float64 = Finite rat | PosInf | NegInf | NaN

type_synonym string_slice = "string list option"

record AgentInfo =
  Name :: string
  ID :: string
  ERC8004ID :: go_int
  Website :: string
  GitHub :: string

record WalletConfig =
  Address :: string
  Networks :: string_slice
  DailyLimit :: float64
  AlertThreshold :: float64

record SecurityConfig =
  FirewallEnabled :: bool
  HoneypotEnabled :: bool
  PromptGuardEnabled :: bool
  SimulatorEnabled :: bool
  WhitelistedAddresses :: string_slice
  BlacklistedAddresses :: string_slice

record APIKeysConfig =
  Etherscan :: string
  Basescan :: string
  OpenAI :: string
  Anthropic :: string
  Discord :: string

record MonitoringConfig =
  DashboardEnabled :: bool
  DashboardPort :: go_int
  WebhookURL :: string
  CheckInterval :: go_int

record AgentConfig =
  Version :: string
  Agent :: AgentInfo
  Wallet :: WalletConfig
  Security :: SecurityConfig
  APIKeys :: APIKeysConfig
  Monitoring :: MonitoringConfig

definition version :: string where
  "version = ''0.1.0''"

text \<open>The zero value of each struct, as \<open>var config AgentConfig\<close> makes it.\<close>

definition zero_AgentInfo :: AgentInfo where
  "zero_AgentInfo = \<lparr>Name = [], ID = [], ERC8004ID = 0, Website = [], GitHub = []\<rparr>"

definition zero_WalletConfig :: WalletConfig where
  "zero_WalletConfig =
     \<lparr>Address = [], Networks = None, DailyLimit = Finite 0, AlertThreshold = Finite 0\<rparr>"

definition zero_SecurityConfig :: SecurityConfig where
  "zero_SecurityConfig =
     \<lparr>FirewallEnabled = False, HoneypotEnabled = False, PromptGuardEnabled = False,
      SimulatorEnabled = False, WhitelistedAddresses = None, BlacklistedAddresses = None\<rparr>"

definition zero_APIKeysConfig :: APIKeysConfig where
  "zero_APIKeysConfig =
     \<lparr>Etherscan = [], Basescan = [], OpenAI = [], Anthropic = [], Discord = []\<rparr>"

definition zero_MonitoringConfig :: MonitoringConfig where
  "zero_MonitoringConfig =
     \<lparr>DashboardEnabled = False, DashboardPort = 0, WebhookURL = [], CheckInterval = 0\<rparr>"

definition zero_AgentConfig :: AgentConfig where
  "zero_AgentConfig =
     \<lparr>Version = [], Agent = zero_AgentInfo, Wallet = zero_WalletConfig,
      Security = zero_SecurityConfig, APIKeys = zero_APIKeysConfig,
      Monitoring = zero_MonitoringConfig\<rparr>"

section \<open>Floating-point numbers\<close>

text \<open>
  A number whose magnitude reaches \<open>2^1024 - 2^970\<close> rounds to an infinity (strconv
  reports a range error there); a positive number up to \<open>2^-1075\<close> rounds to zero.
\<close>

definition float64_overflow :: "rat \<Rightarrow> bool" where
  "float64_overflow q \<longleftrightarrow> 2 ^ 1024 - 2 ^ 970 \<le> \<bar>q\<bar>"

text \<open>The Go comparison \<open>f <= 0\<close>; it is false for NaN.\<close>

fun float64_le_zero :: "float64 \<Rightarrow> bool" where
  "float64_le_zero (Finite q) = (q \<le> 1 / 2 ^ 1075)"
| "float64_le_zero NegInf = True"
| "float64_le_zero PosInf = False"
| "float64_le_zero NaN = False"

fun float64_finite :: "float64 \<Rightarrow> bool" where
  "float64_finite (Finite q) = (\<not> float64_overflow q)"
| "float64_finite _ = False"

section \<open>JSON documents and encoding/json\<close>

text \<open>
  A file holds a JSON text or something else. A JSON text is kept as its syntax tree;
  indentation and escapes are not part of it. A number literal is \<open>JInt i\<close> when it is
  written with digits only (and a sign), and \<open>JFrac q\<close>, of value \<open>q\<close>, when it has a
  fraction or an exponent.
\<close>

datatype json =
    JNull
  | JBool bool
  | JInt int
  | JFrac rat
  | JString string
  | JArray "json list"
  | JObject "(string \<times> json) list"

text \<open>The value under a key in an object (the first, if the key occurs more than once).\<close>

definition json_member :: "string \<Rightarrow> json \<Rightarrow> json option" where
  "json_member k j = (case j of JObject kvs \<Rightarrow> map_of kvs k | _ \<Rightarrow> None)"

subsection \<open>Strings\<close>

text \<open>
  encoding/json writes and reads a string as UTF-8. \<open>rune_len\<close> is the length of the
  well-formed sequence at the head of a string, 0 when the first byte begins none
  (utf8.DecodeRuneInString reports RuneError with width 1). A byte that begins none is
  replaced by U+FFFD, the bytes EF BF BD, both when a string is written and when it is
  read.
\<close>

definition cont :: "char \<Rightarrow> bool" where
  "cont c \<longleftrightarrow> CHR 0x80 \<le> c \<and> c \<le> CHR 0xBF"

definition lead_size :: "char \<Rightarrow> nat" where
  "lead_size c =
     (if c < CHR 0x80 then 1
      else if CHR 0xC2 \<le> c \<and> c \<le> CHR 0xDF then 2
      else if CHR 0xE0 \<le> c \<and> c \<le> CHR 0xEF then 3
      else if CHR 0xF0 \<le> c \<and> c \<le> CHR 0xF4 then 4
      else 0)"

text \<open>The range of the second byte depends on the first.\<close>

definition second_ok :: "char \<Rightarrow> char \<Rightarrow> bool" where
  "second_ok c c1 \<longleftrightarrow>
     (if c = CHR 0xE0 then CHR 0xA0 \<le> c1 \<and> c1 \<le> CHR 0xBF
      else if c = CHR 0xED then CHR 0x80 \<le> c1 \<and> c1 \<le> CHR 0x9F
      else if c = CHR 0xF0 then CHR 0x90 \<le> c1 \<and> c1 \<le> CHR 0xBF
      else if c = CHR 0xF4 then CHR 0x80 \<le> c1 \<and> c1 \<le> CHR 0x8F
      else cont c1)"

fun rune_len :: "string \<Rightarrow> nat" where
  "rune_len [] = 0"
| "rune_len (c # cs) =
     (if lead_size c = 1 then 1
      else if lead_size c = 2 then
        (case cs of c1 # _ \<Rightarrow> if second_ok c c1 then 2 else 0 | _ \<Rightarrow> 0)
      else if lead_size c = 3 then
        (case cs of c1 # c2 # _ \<Rightarrow> if second_ok c c1 \<and> cont c2 then 3 else 0 | _ \<Rightarrow> 0)
      else if lead_size c = 4 then
        (case cs of
           c1 # c2 # c3 # _ \<Rightarrow> if second_ok c c1 \<and> cont c2 \<and> cont c3 then 4 else 0
         | _ \<Rightarrow> 0)
      else 0)"

lemma rune_len_le: "rune_len s \<le> length s"
  by (cases s) (auto split: list.splits)

function utf8_coerce :: "string \<Rightarrow> string" where
  "utf8_coerce s =
     (if s = [] then []
      else if rune_len s = 0 then [CHR 0xEF, CHR 0xBF, CHR 0xBD] @ utf8_coerce (tl s)
      else take (rune_len s) s @ utf8_coerce (drop (rune_len s) s))"
  by pat_completeness auto
termination
  by (relation "measure length") auto

declare utf8_coerce.simps [simp del]

definition marshal_string :: "string \<Rightarrow> json" where
  "marshal_string s = JString (utf8_coerce s)"

subsection \<open>Marshal\<close>

text \<open>
  Struct fields are written in declaration order under the names of their \<open>json\<close>
  tags; a field tagged \<open>omitempty\<close> is left out when it is the empty string; a nil
  slice is written as \<open>null\<close>. A float
  is written in the shortest form that reads back as the same float, without fraction or
  exponent when it is a whole number below \<open>10^21\<close>; NaN and the infinities are refused
  (UnsupportedValueError).
\<close>

definition marshal_int :: "go_int \<Rightarrow> json" where
  "marshal_int i = JInt (sint i)"

fun marshal_float64 :: "float64 \<Rightarrow> json option" where
  "marshal_float64 (Finite q) =
     Some (if q = of_int \<lfloor>q\<rfloor> \<and> \<bar>q\<bar> < 10 ^ 21 then JInt \<lfloor>q\<rfloor> else JFrac q)"
| "marshal_float64 _ = None"

definition marshal_slice :: "string_slice \<Rightarrow> json" where
  "marshal_slice s = (case s of None \<Rightarrow> JNull | Some xs \<Rightarrow> JArray (map marshal_string xs))"

definition omitempty :: "string \<Rightarrow> string \<Rightarrow> (string \<times> json) list" where
  "omitempty k s = (if s = [] then [] else [(k, marshal_string s)])"

definition marshal_AgentInfo :: "AgentInfo \<Rightarrow> json" where
  "marshal_AgentInfo a = JObject
     [(''name'', marshal_string (Name a)),
      (''id'', marshal_string (ID a)),
      (''erc8004_id'', marshal_int (ERC8004ID a)),
      (''website'', marshal_string (Website a)),
      (''github'', marshal_string (GitHub a))]"

definition marshal_WalletConfig :: "WalletConfig \<Rightarrow> json option" where
  "marshal_WalletConfig w =
     (case marshal_float64 (DailyLimit w) of
        None \<Rightarrow> None
      | Some dl \<Rightarrow>
          (case marshal_float64 (AlertThreshold w) of
             None \<Rightarrow> None
           | Some th \<Rightarrow>
               Some (JObject
                 [(''address'', marshal_string (Address w)),
                  (''networks'', marshal_slice (Networks w)),
                  (''daily_limit'', dl),
                  (''alert_threshold'', th)])))"

definition marshal_SecurityConfig :: "SecurityConfig \<Rightarrow> json" where
  "marshal_SecurityConfig s = JObject
     [(''firewall_enabled'', JBool (FirewallEnabled s)),
      (''honeypot_enabled'', JBool (HoneypotEnabled s)),
      (''prompt_guard_enabled'', JBool (PromptGuardEnabled s)),
      (''simulator_enabled'', JBool (SimulatorEnabled s)),
      (''whitelisted_addresses'', marshal_slice (WhitelistedAddresses s)),
      (''blacklisted_addresses'', marshal_slice (BlacklistedAddresses s))]"

definition marshal_APIKeysConfig :: "APIKeysConfig \<Rightarrow> json" where
  "marshal_APIKeysConfig k = JObject
     (omitempty ''etherscan'' (Etherscan k) @
      omitempty ''basescan'' (Basescan k) @
      omitempty ''openai'' (OpenAI k) @
      omitempty ''anthropic'' (Anthropic k) @
      omitempty ''discord'' (Discord k))"

definition marshal_MonitoringConfig :: "MonitoringConfig \<Rightarrow> json" where
  "marshal_MonitoringConfig m = JObject
     ([(''dashboard_enabled'', JBool (DashboardEnabled m)),
       (''dashboard_port'', marshal_int (DashboardPort m))] @
      omitempty ''webhook_url'' (WebhookURL m) @
      [(''check_interval_minutes'', marshal_int (CheckInterval m))])"

definition marshal_AgentConfig :: "AgentConfig \<Rightarrow> json option" where
  "marshal_AgentConfig c =
     (case marshal_WalletConfig (Wallet c) of None \<Rightarrow> None | Some w \<Rightarrow>
        Some (JObject
          [(''version'', marshal_string (Version c)),
           (''agent'', marshal_AgentInfo (Agent c)),
           (''wallet'', w),
           (''security'', marshal_SecurityConfig (Security c)),
           (''api_keys'', marshal_APIKeysConfig (APIKeys c)),
           (''monitoring'', marshal_MonitoringConfig (Monitoring c))]))"

subsection \<open>Unmarshal\<close>

text \<open>
  Unmarshal decodes into an existing value. The members of an object are taken in order;
  a key selects the field whose tag name it equals, or else the field whose name it equals
  under case folding, and is skipped when there is none; a key met again is decoded into
  what the earlier one left. \<open>null\<close> leaves a string, number, boolean or struct as it
  is and makes a slice nil. A value of the wrong kind, an integer
  literal out of range or written with a fraction or exponent, and a float out of range
  are errors (UnmarshalTypeError), and loadConfig gives up on any error.
\<close>

fun foldName :: "string \<Rightarrow> string" where
  "foldName [] = []"
| "foldName (c # cs) =
     (if CHR ''a'' \<le> c \<and> c \<le> CHR ''z'' then char_of (of_char c - (32::nat)) # foldName cs
      else case cs of
        d # ds \<Rightarrow>
          (if c = CHR 0xC5 \<and> d = CHR 0xBF then CHR ''S'' # foldName ds
           else case ds of
             e # es \<Rightarrow>
               (if c = CHR 0xE2 \<and> d = CHR 0x84 \<and> e = CHR 0xAA then CHR ''K'' # foldName es
                else c # foldName cs)
           | [] \<Rightarrow> c # foldName cs)
      | [] \<Rightarrow> [c])"

definition find_field :: "string list \<Rightarrow> string \<Rightarrow> string option" where
  "find_field names key =
     (if key \<in> set names then Some key
      else find (\<lambda>n. foldName n = foldName key) names)"

definition decode_string :: "json \<Rightarrow> string \<Rightarrow> string option" where
  "decode_string j cur =
     (case j of JNull \<Rightarrow> Some cur | JString s \<Rightarrow> Some (utf8_coerce s) | _ \<Rightarrow> None)"

definition decode_bool :: "json \<Rightarrow> bool \<Rightarrow> bool option" where
  "decode_bool j cur =
     (case j of JNull \<Rightarrow> Some cur | JBool b \<Rightarrow> Some b | _ \<Rightarrow> None)"

definition decode_int :: "json \<Rightarrow> go_int \<Rightarrow> go_int option" where
  "decode_int j cur =
     (case j of
        JNull \<Rightarrow> Some cur
      | JInt i \<Rightarrow> (if - (2 ^ 63) \<le> i \<and> i < 2 ^ 63 then Some (word_of_int i) else None)
      | _ \<Rightarrow> None)"

definition decode_float64 :: "json \<Rightarrow> float64 \<Rightarrow> float64 option" where
  "decode_float64 j cur =
     (case j of
        JNull \<Rightarrow> Some cur
      | JInt i \<Rightarrow> (if float64_overflow (of_int i) then None else Some (Finite (of_int i)))
      | JFrac q \<Rightarrow> (if float64_overflow q then None else Some (Finite q))
      | _ \<Rightarrow> None)"

text \<open>
  An array is decoded into the slice the field holds: element \<open>i\<close> is decoded into the
  element \<open>i\<close> it had, so that a \<open>null\<close> keeps it, and into an empty string past the
  length it had. The result has the length of the array. One case is left out: when a
  key occurs three times or more, the slice can still hold, past its length, elements of an
  earlier and longer array, and a \<open>null\<close> at such a place keeps that element in the
  program while it gives the empty string here.
\<close>

fun decode_elems :: "json list \<Rightarrow> string list \<Rightarrow> string list option" where
  "decode_elems [] cur = Some []"
| "decode_elems (j # js) cur =
     (case decode_string j (case cur of [] \<Rightarrow> [] | c # _ \<Rightarrow> c) of
        None \<Rightarrow> None
      | Some s \<Rightarrow>
          (case decode_elems js (tl cur) of None \<Rightarrow> None | Some ss \<Rightarrow> Some (s # ss)))"

definition decode_slice :: "json \<Rightarrow> string_slice \<Rightarrow> string_slice option" where
  "decode_slice j cur =
     (case j of
        JNull \<Rightarrow> Some None
      | JArray js \<Rightarrow>
          (case decode_elems js (case cur of None \<Rightarrow> [] | Some xs \<Rightarrow> xs) of
             None \<Rightarrow> None
           | Some ss \<Rightarrow> Some (Some ss))
      | _ \<Rightarrow> None)"

fun decode_members :: "(string \<Rightarrow> json \<Rightarrow> 'a \<Rightarrow> 'a option) \<Rightarrow> (string \<times> json) list \<Rightarrow> 'a \<Rightarrow> 'a option" where
  "decode_members f [] a = Some a"
| "decode_members f ((k, v) # kvs) a =
     (case f k v a of None \<Rightarrow> None | Some a' \<Rightarrow> decode_members f kvs a')"

definition decode_struct :: "(string \<Rightarrow> json \<Rightarrow> 'a \<Rightarrow> 'a option) \<Rightarrow> json \<Rightarrow> 'a \<Rightarrow> 'a option" where
  "decode_struct f j cur =
     (case j of JNull \<Rightarrow> Some cur | JObject kvs \<Rightarrow> decode_members f kvs cur | _ \<Rightarrow> None)"

definition field_AgentInfo :: "string \<Rightarrow> json \<Rightarrow> AgentInfo \<Rightarrow> AgentInfo option" where
  "field_AgentInfo key v a =
     (case find_field [''name'', ''id'', ''erc8004_id'', ''website'', ''github''] key of
        None \<Rightarrow> Some a
      | Some n \<Rightarrow>
          if n = ''name'' then map_option (\<lambda>x. a\<lparr>Name := x\<rparr>) (decode_string v (Name a))
          else if n = ''id'' then map_option (\<lambda>x. a\<lparr>ID := x\<rparr>) (decode_string v (ID a))
          else if n = ''erc8004_id'' then
            map_option (\<lambda>x. a\<lparr>ERC8004ID := x\<rparr>) (decode_int v (ERC8004ID a))
          else if n = ''website'' then
            map_option (\<lambda>x. a\<lparr>Website := x\<rparr>) (decode_string v (Website a))
          else map_option (\<lambda>x. a\<lparr>GitHub := x\<rparr>) (decode_string v (GitHub a)))"

definition field_WalletConfig :: "string \<Rightarrow> json \<Rightarrow> WalletConfig \<Rightarrow> WalletConfig option" where
  "field_WalletConfig key v w =
     (case find_field [''address'', ''networks'', ''daily_limit'', ''alert_threshold''] key of
        None \<Rightarrow> Some w
      | Some n \<Rightarrow>
          if n = ''address'' then
            map_option (\<lambda>x. w\<lparr>Address := x\<rparr>) (decode_string v (Address w))
          else if n = ''networks'' then
            map_option (\<lambda>x. w\<lparr>Networks := x\<rparr>) (decode_slice v (Networks w))
          else if n = ''daily_limit'' then
            map_option (\<lambda>x. w\<lparr>DailyLimit := x\<rparr>) (decode_float64 v (DailyLimit w))
          else map_option (\<lambda>x. w\<lparr>AlertThreshold := x\<rparr>) (decode_float64 v (AlertThreshold w)))"

definition field_SecurityConfig :: "string \<Rightarrow> json \<Rightarrow> SecurityConfig \<Rightarrow> SecurityConfig option" where
  "field_SecurityConfig key v s =
     (case find_field [''firewall_enabled'', ''honeypot_enabled'', ''prompt_guard_enabled'',
                       ''simulator_enabled'', ''whitelisted_addresses'',
                       ''blacklisted_addresses''] key of
        None \<Rightarrow> Some s
      | Some n \<Rightarrow>
          if n = ''firewall_enabled'' then
            map_option (\<lambda>x. s\<lparr>FirewallEnabled := x\<rparr>) (decode_bool v (FirewallEnabled s))
          else if n = ''honeypot_enabled'' then
            map_option (\<lambda>x. s\<lparr>HoneypotEnabled := x\<rparr>) (decode_bool v (HoneypotEnabled s))
          else if n = ''prompt_guard_enabled'' then
            map_option (\<lambda>x. s\<lparr>PromptGuardEnabled := x\<rparr>) (decode_bool v (PromptGuardEnabled s))
          else if n = ''simulator_enabled'' then
            map_option (\<lambda>x. s\<lparr>SimulatorEnabled := x\<rparr>) (decode_bool v (SimulatorEnabled s))
          else if n = ''whitelisted_addresses'' then
            map_option (\<lambda>x. s\<lparr>WhitelistedAddresses := x\<rparr>)
              (decode_slice v (WhitelistedAddresses s))
          else map_option (\<lambda>x. s\<lparr>BlacklistedAddresses := x\<rparr>)
              (decode_slice v (BlacklistedAddresses s)))"

definition field_APIKeysConfig :: "string \<Rightarrow> json \<Rightarrow> APIKeysConfig \<Rightarrow> APIKeysConfig option" where
  "field_APIKeysConfig key v k =
     (case find_field [''etherscan'', ''basescan'', ''openai'', ''anthropic'', ''discord''] key of
        None \<Rightarrow> Some k
      | Some n \<Rightarrow>
          if n = ''etherscan'' then
            map_option (\<lambda>x. k\<lparr>Etherscan := x\<rparr>) (decode_string v (Etherscan k))
          else if n = ''basescan'' then
            map_option (\<lambda>x. k\<lparr>Basescan := x\<rparr>) (decode_string v (Basescan k))
          else if n = ''openai'' then
            map_option (\<lambda>x. k\<lparr>OpenAI := x\<rparr>) (decode_string v (OpenAI k))
          else if n = ''anthropic'' then
            map_option (\<lambda>x. k\<lparr>Anthropic := x\<rparr>) (decode_string v (Anthropic k))
          else map_option (\<lambda>x. k\<lparr>Discord := x\<rparr>) (decode_string v (Discord k)))"

definition field_MonitoringConfig :: "string \<Rightarrow> json \<Rightarrow> MonitoringConfig \<Rightarrow> MonitoringConfig option" where
  "field_MonitoringConfig key v m =
     (case find_field [''dashboard_enabled'', ''dashboard_port'', ''webhook_url'',
                       ''check_interval_minutes''] key of
        None \<Rightarrow> Some m
      | Some n \<Rightarrow>
          if n = ''dashboard_enabled'' then
            map_option (\<lambda>x. m\<lparr>DashboardEnabled := x\<rparr>) (decode_bool v (DashboardEnabled m))
          else if n = ''dashboard_port'' then
            map_option (\<lambda>x. m\<lparr>DashboardPort := x\<rparr>) (decode_int v (DashboardPort m))
          else if n = ''webhook_url'' then
            map_option (\<lambda>x. m\<lparr>WebhookURL := x\<rparr>) (decode_string v (WebhookURL m))
          else map_option (\<lambda>x. m\<lparr>CheckInterval := x\<rparr>) (decode_int v (CheckInterval m)))"

definition field_AgentConfig :: "string \<Rightarrow> json \<Rightarrow> AgentConfig \<Rightarrow> AgentConfig option" where
  "field_AgentConfig key v c =
     (case find_field [''version'', ''agent'', ''wallet'', ''security'', ''api_keys'',
                       ''monitoring''] key of
        None \<Rightarrow> Some c
      | Some n \<Rightarrow>
          if n = ''version'' then
            map_option (\<lambda>x. c\<lparr>Version := x\<rparr>) (decode_string v (Version c))
          else if n = ''agent'' then
            map_option (\<lambda>x. c\<lparr>Agent := x\<rparr>) (decode_struct field_AgentInfo v (Agent c))
          else if n = ''wallet'' then
            map_option (\<lambda>x. c\<lparr>Wallet := x\<rparr>) (decode_struct field_WalletConfig v (Wallet c))
          else if n = ''security'' then
            map_option (\<lambda>x. c\<lparr>Security := x\<rparr>)
              (decode_struct field_SecurityConfig v (Security c))
          else if n = ''api_keys'' then
            map_option (\<lambda>x. c\<lparr>APIKeys := x\<rparr>)
              (decode_struct field_APIKeysConfig v (APIKeys c))
          else map_option (\<lambda>x. c\<lparr>Monitoring := x\<rparr>)
              (decode_struct field_MonitoringConfig v (Monitoring c)))"

definition unmarshal_AgentConfig :: "json \<Rightarrow> AgentConfig \<Rightarrow> AgentConfig option" where
  "unmarshal_AgentConfig j c = decode_struct field_AgentConfig j c"

section \<open>Scanning numbers: fmt.Sscanf with the verbs \<open>%d\<close> and \<open>%f\<close>\<close>

text \<open>
  \<open>fmt.Sscanf(value, "%d", &x)\<close> skips leading blanks, reads one token and stores its
  value in \<open>x\<close>; what follows the token is left unread. When the token does not convert,
  Sscanf reports an error and \<open>x\<close> is not assigned. The scanners below return \<open>None\<close>
  in that case. They follow Go's fmt and strconv packages.
\<close>

text \<open>The length in bytes of a blank at the head of the input, 0 when there is none.\<close>

definition space_len :: "string \<Rightarrow> nat" where
  "space_len s =
     (case s of
        [] \<Rightarrow> 0
      | c # cs \<Rightarrow>
          if c \<in> {CHR 0x09, CHR 0x0B, CHR 0x0C, CHR 0x0D, CHR 0x20} then 1
          else if take 2 s \<in> {[CHR 0xC2, CHR 0x85], [CHR 0xC2, CHR 0xA0]} then 2
          else if take 2 s = [CHR 0xE2, CHR 0x80] \<and> length s \<ge> 3 \<and>
                  (CHR 0x80 \<le> s ! 2 \<and> s ! 2 \<le> CHR 0x8A \<or>
                   s ! 2 \<in> {CHR 0xA8, CHR 0xA9, CHR 0xAF}) then 3
          else if take 3 s \<in> {[CHR 0xE1, CHR 0x9A, CHR 0x80], [CHR 0xE2, CHR 0x81, CHR 0x9F],
                               [CHR 0xE3, CHR 0x80, CHR 0x80]} then 3
          else 0)"

lemma space_len_le: "space_len s \<le> length s"
  by (cases s) (auto simp: space_len_def dest: arg_cong [where f = length])

text \<open>A newline among the leading blanks is an error ("unexpected newline").\<close>

function SkipSpace :: "string \<Rightarrow> string option" where
  "SkipSpace s =
     (if s = [] then Some []
      else if hd s = CHR 0x0A then None
      else if space_len s = 0 then Some s
      else SkipSpace (drop (space_len s) s))"
  by pat_completeness auto
termination
  by (relation "measure length") auto

declare SkipSpace.simps [simp del]

definition accept :: "string \<Rightarrow> string \<Rightarrow> string \<times> string" where
  "accept ok s =
     (case s of c # cs \<Rightarrow> if c \<in> set ok then ([c], cs) else ([], s) | [] \<Rightarrow> ([], []))"

text \<open>\<open>s.accept(a) && s.accept(b) && ...\<close>: stops at the first refusal, keeping what was
  read.\<close>

fun accept_seq :: "string list \<Rightarrow> string \<Rightarrow> string \<times> string \<times> bool" where
  "accept_seq [] s = ([], s, True)"
| "accept_seq (ok # oks) s =
     (case accept ok s of
        ([], _) \<Rightarrow> ([], s, False)
      | (a, r) \<Rightarrow> (case accept_seq oks r of (b, r', f) \<Rightarrow> (a @ b, r', f)))"

text \<open>\<open>for s.accept(digits) {}\<close>\<close>

definition accept_all :: "string \<Rightarrow> string \<Rightarrow> string \<times> string" where
  "accept_all ok s = (takeWhile (\<lambda>c. c \<in> set ok) s, dropWhile (\<lambda>c. c \<in> set ok) s)"

definition decimalDigits :: string where
  "decimalDigits = ''0123456789''"

definition hexadecimalDigits :: string where
  "hexadecimalDigits = ''0123456789aAbBcCdDeEfF''"

definition digit_val :: "char \<Rightarrow> int" where
  "digit_val c =
     (if CHR ''0'' \<le> c \<and> c \<le> CHR ''9'' then of_char c - 48
      else if CHR ''a'' \<le> c \<and> c \<le> CHR ''f'' then of_char c - 87
      else of_char c - 55)"

definition digits_val :: "int \<Rightarrow> string \<Rightarrow> int" where
  "digits_val base ds = foldl (\<lambda>n c. base * n + digit_val c) 0 ds"

subsection \<open>The verb \<open>%d\<close>\<close>

text \<open>
  The token is an optional sign and decimal digits, at least one. strconv.ParseInt
  refuses a value outside 64 bits.
\<close>

definition Sscanf_d :: "string \<Rightarrow> go_int option" where
  "Sscanf_d str =
     (case SkipSpace str of
        None \<Rightarrow> None
      | Some s \<Rightarrow>
          if s = [] then None
          else
            (case accept ''+-'' s of (sg, s1) \<Rightarrow>
             case accept_all decimalDigits s1 of (ds, _) \<Rightarrow>
               if ds = [] then None
               else
                 let i = (if sg = ''-'' then - digits_val 10 ds else digits_val 10 ds)
                 in if - (2 ^ 63) \<le> i \<and> i < 2 ^ 63 then Some (word_of_int i) else None))"

subsection \<open>The verb \<open>%f\<close>\<close>

text \<open>
  floatToken: \<open>nan\<close>, or a sign and \<open>inf\<close>, or a sign, digits, a fraction and an exponent,
  each optional and each as long as the input allows. The exponent mark is taken even if
  no digit follows it.
\<close>

definition floatToken :: "string \<Rightarrow> string" where
  "floatToken s =
     (case accept_seq [''nN'', ''aA'', ''nN''] s of (n, s1, isnan) \<Rightarrow>
      if isnan then n
      else
       (case accept ''+-'' s1 of (sg, s2) \<Rightarrow>
        case accept_seq [''iI'', ''nN'', ''fF''] s2 of (nf, s3, isinf) \<Rightarrow>
        if isinf then n @ sg @ nf
        else
         (case accept_seq [''0'', ''xX''] s3 of (hx, s4, ishex) \<Rightarrow>
          let digits = (if ishex then hexadecimalDigits else decimalDigits) @ ''_'';
              exp = (if ishex then ''pP'' else ''eEpP'')
          in
          case accept_all digits s4 of (d1, s5) \<Rightarrow>
          case accept ''.'' s5 of (pt, s6) \<Rightarrow>
          case (if pt = [] then ([], s6) else accept_all digits s6) of (d2, s7) \<Rightarrow>
          case accept exp s7 of (ex, s8) \<Rightarrow>
          case (if ex = [] then ([], s8) else accept ''+-'' s8) of (es, s9) \<Rightarrow>
          case (if ex = [] then ([], s9) else accept_all (decimalDigits @ ''_'') s9) of
            (ed, _) \<Rightarrow> n @ sg @ nf @ hx @ d1 @ pt @ d2 @ ex @ es @ ed)))"

text \<open>strconv.ParseFloat, on the whole string.\<close>

definition lower :: "char \<Rightarrow> char" where
  "lower c = (if CHR ''A'' \<le> c \<and> c \<le> CHR ''Z'' then char_of (of_char c + (32::nat)) else c)"

definition is_digit :: "char \<Rightarrow> bool" where
  "is_digit c \<longleftrightarrow> CHR ''0'' \<le> c \<and> c \<le> CHR ''9''"

definition is_hex_digit :: "char \<Rightarrow> bool" where
  "is_hex_digit c \<longleftrightarrow> is_digit c \<or> CHR ''a'' \<le> lower c \<and> lower c \<le> CHR ''f''"

text \<open>
  underscoreOK: an underscore stands between two digits, or between a base prefix and a
  digit. The state is the kind of the last character: \<open>CHR ''0''\<close> for a digit,
  \<open>CHR ''_''\<close> for an underscore, \<open>CHR ''!''\<close> for anything else.
\<close>

fun underscore_scan :: "bool \<Rightarrow> char \<Rightarrow> string \<Rightarrow> bool" where
  "underscore_scan hex saw [] = (saw \<noteq> CHR ''_'')"
| "underscore_scan hex saw (c # cs) =
     (if is_digit c \<or> hex \<and> is_hex_digit c then underscore_scan hex (CHR ''0'') cs
      else if c = CHR ''_'' then
        (if saw \<noteq> CHR ''0'' then False else underscore_scan hex (CHR ''_'') cs)
      else if saw = CHR ''_'' then False
      else underscore_scan hex (CHR ''!'') cs)"

definition underscoreOK :: "string \<Rightarrow> bool" where
  "underscoreOK s0 =
     (let s = (if s0 \<noteq> [] \<and> hd s0 \<in> {CHR ''+'', CHR ''-''} then tl s0 else s0)
      in if length s \<ge> 2 \<and> hd s = CHR ''0'' \<and> lower (s ! 1) \<in> {CHR ''b'', CHR ''o'', CHR ''x''}
         then underscore_scan (lower (s ! 1) = CHR ''x'') (CHR ''0'') (drop 2 s)
         else underscore_scan False (CHR ''^'') s)"

text \<open>
  The mantissa: digits and underscores with at most one point. The result is the digits
  read before the point, those read after it, and the rest of the input.
\<close>

definition read_mantissa :: "bool \<Rightarrow> string \<Rightarrow> string \<times> string \<times> string" where
  "read_mantissa hex s =
     (let isd = (\<lambda>c. c = CHR ''_'' \<or> (if hex then is_hex_digit c else is_digit c));
          ip = takeWhile isd s; r = dropWhile isd s
      in if r \<noteq> [] \<and> hd r = CHR ''.''
         then (ip, takeWhile isd (tl r), dropWhile isd (tl r))
         else (ip, [], r))"

text \<open>
  The exponent: a mark, an optional sign, a digit, then digits and underscores up to the
  end of the string. The value stops growing once it has reached 10000.
\<close>

definition read_exponent :: "string \<Rightarrow> int option" where
  "read_exponent s =
     (case accept ''+-'' s of (sg, r) \<Rightarrow>
        if r = [] \<or> \<not> is_digit (hd r) then None
        else if \<not> list_all (\<lambda>c. is_digit c \<or> c = CHR ''_'') r then None
        else
          let e = foldl (\<lambda>e c. if c = CHR ''_'' \<or> \<not> e < 10000 then e else e * 10 + digit_val c)
                    (0::int) r
          in Some (if sg = ''-'' then - e else e))"

definition readFloat :: "string \<Rightarrow> rat option" where
  "readFloat s0 =
     (case accept ''+-'' s0 of (sg, s) \<Rightarrow>
      let hex = (length s > 2 \<and> hd s = CHR ''0'' \<and> lower (s ! 1) = CHR ''x'');
          base = (if hex then 16 else 10::int);
          expChar = (if hex then CHR ''p'' else CHR ''e'')
      in
      case read_mantissa hex (if hex then drop 2 s else s) of (ip, fp, r) \<Rightarrow>
      let ds = filter (\<lambda>c. c \<noteq> CHR ''_'') (ip @ fp);
          m = digits_val base ds;
          frac = length (filter (\<lambda>c. c \<noteq> CHR ''_'') fp)
      in
      if ds = [] then None
      else
       (case (if r \<noteq> [] \<and> lower (hd r) = expChar then read_exponent (tl r)
              else if r = [] \<and> \<not> hex then Some 0 else None) of
          None \<Rightarrow> None
        | Some e \<Rightarrow>
            if CHR ''_'' \<in> set s0 \<and> \<not> underscoreOK s0 then None
            else
              let v = (if hex then of_int m * power_int 2 (e - 4 * int frac)
                       else of_int m * power_int 10 (e - int frac))
              in Some (if sg = ''-'' then - v else v)))"

definition special :: "string \<Rightarrow> float64 option" where
  "special s =
     (let l = map lower s in
      if l = ''nan'' then Some NaN
      else if l \<in> {''inf'', ''+inf'', ''infinity'', ''+infinity''} then Some PosInf
      else if l \<in> {''-inf'', ''-infinity''} then Some NegInf
      else None)"

definition ParseFloat :: "string \<Rightarrow> float64 option" where
  "ParseFloat s =
     (case special s of
        Some f \<Rightarrow> Some f
      | None \<Rightarrow>
          (case readFloat s of
             None \<Rightarrow> None
           | Some q \<Rightarrow> if float64_overflow q then None else Some (Finite q)))"

text \<open>strconv.Atoi: a sign and decimal digits, within 64 bits.\<close>

definition Atoi :: "string \<Rightarrow> int option" where
  "Atoi s =
     (case accept ''+-'' s of (sg, ds) \<Rightarrow>
        if ds = [] \<or> \<not> list_all is_digit ds then None
        else
          let i = (if sg = ''-'' then - digits_val 10 ds else digits_val 10 ds)
          in if - (2 ^ 63) \<le> i \<and> i < 2 ^ 63 then Some i else None)"

text \<open>math.Ldexp: \<open>f * 2^m\<close>, an infinity when that is out of range.\<close>

fun Ldexp :: "float64 \<Rightarrow> int \<Rightarrow> float64" where
  "Ldexp (Finite q) m =
     (let r = q * power_int 2 m
      in if float64_overflow r then (if 0 < r then PosInf else NegInf) else Finite r)"
| "Ldexp f m = f"

text \<open>
  convertFloat: a token with a \<open>p\<close> exponent and no \<open>x\<close> is a decimal number times a
  power of two; any other token goes to ParseFloat whole.
\<close>

definition convertFloat :: "string \<Rightarrow> float64 option" where
  "convertFloat str =
     (if CHR ''p'' \<in> set str \<and> CHR ''x'' \<notin> set str \<and> CHR ''X'' \<notin> set str then
        (case ParseFloat (takeWhile (\<lambda>c. c \<noteq> CHR ''p'') str) of
           None \<Rightarrow> None
         | Some f \<Rightarrow>
             (case Atoi (tl (dropWhile (\<lambda>c. c \<noteq> CHR ''p'') str)) of
                None \<Rightarrow> None
              | Some m \<Rightarrow> Some (Ldexp f m)))
      else ParseFloat str)"

definition Sscanf_f :: "string \<Rightarrow> float64 option" where
  "Sscanf_f str =
     (case SkipSpace str of
        None \<Rightarrow> None
      | Some s \<Rightarrow> if s = [] then None else convertFloat (floatToken s))"

section \<open>The file system\<close>

text \<open>
  The program reads and writes the configuration file and three files under
  \<open>exports/\<close>; how their paths are built from the home directory is left out. A file is
  absent, or holds a JSON text, or holds something that is not one. \<open>locked\<close> is the set
  of paths that os.WriteFile cannot write (a missing or read-only directory, a full disk).
  os.MkdirAll, whose result the program ignores, is not modelled.
\<close>

datatype path = ConfigPath | ExportPath string

datatype file_data = NotJSON | JSONText json

record FS =
  files :: "path \<Rightarrow> file_data option"
  locked :: "path set"

datatype error = NotFound | Malformed | MarshalError | WriteError | UnknownKey string

definition WriteFile :: "path \<Rightarrow> file_data \<Rightarrow> FS \<Rightarrow> FS option" where
  "WriteFile p d fs =
     (if p \<in> locked fs then None else Some (fs\<lparr>files := (files fs)(p \<mapsto> d)\<rparr>))"

section \<open>The commands (main.go, lines 61-431)\<close>

text \<open>
  A command takes the file system and returns its outcome and the file system it leaves.
  \<open>Inl e\<close> is a failure: the program prints a message and calls \<open>os.Exit(1)\<close>.
\<close>

definition loadConfig :: "FS \<Rightarrow> error + AgentConfig" where
  "loadConfig fs =
     (case files fs ConfigPath of
        None \<Rightarrow> Inl NotFound
      | Some NotJSON \<Rightarrow> Inl Malformed
      | Some (JSONText j) \<Rightarrow>
          (case unmarshal_AgentConfig j zero_AgentConfig of
             None \<Rightarrow> Inl Malformed
           | Some config \<Rightarrow> Inr config))"

definition saveConfig :: "AgentConfig \<Rightarrow> FS \<Rightarrow> error + FS" where
  "saveConfig config fs =
     (case marshal_AgentConfig config of
        None \<Rightarrow> Inl MarshalError
      | Some data \<Rightarrow>
          (case WriteFile ConfigPath (JSONText data) fs of
             None \<Rightarrow> Inl WriteError
           | Some fs' \<Rightarrow> Inr fs'))"

subsection \<open>init\<close>

definition defaultConfig :: AgentConfig where
  "defaultConfig =
     \<lparr>Version = version,
      Agent = \<lparr>Name = ''Arithmos'',
               ID = ''arithmos-quillsworth'',
               ERC8004ID = 1941,
               Website = ''https://arithmos.dev'',
               GitHub = ''https://github.com/arithmosquillsworth''\<rparr>,
      Wallet = \<lparr>Address = ''0x120e011fB8a12bfcB61e5c1d751C26A5D33Aae91'',
                Networks = Some [''ethereum'', ''base''],
                DailyLimit = Finite 0.5,
                AlertThreshold = Finite 0.1\<rparr>,
      Security = \<lparr>FirewallEnabled = True,
                  HoneypotEnabled = True,
                  PromptGuardEnabled = True,
                  SimulatorEnabled = True,
                  WhitelistedAddresses = Some [],
                  BlacklistedAddresses = Some []\<rparr>,
      APIKeys = zero_APIKeysConfig,
      Monitoring = \<lparr>DashboardEnabled = True,
                    DashboardPort = 8080,
                    WebhookURL = [],
                    CheckInterval = 5\<rparr>\<rparr>"

datatype init_result = AlreadyExists | Created

definition initConfig :: "FS \<Rightarrow> (error + init_result) \<times> FS" where
  "initConfig fs =
     (if files fs ConfigPath \<noteq> None then (Inr AlreadyExists, fs)
      else
        (case saveConfig defaultConfig fs of
           Inl e \<Rightarrow> (Inl e, fs)
         | Inr fs' \<Rightarrow> (Inr Created, fs')))"

subsection \<open>show\<close>

text \<open>showConfig loads the document and prints it; the text it prints is left out.\<close>

definition showConfig :: "FS \<Rightarrow> (error + unit) \<times> FS" where
  "showConfig fs = (case loadConfig fs of Inl e \<Rightarrow> (Inl e, fs) | Inr config \<Rightarrow> (Inr (), fs))"

subsection \<open>get and set\<close>

text \<open>A Go value handed to \<open>fmt.Println\<close> or stored in a \<open>map[string]interface{}\<close>.\<close>

datatype go_value = VString string | VInt go_int | VFloat float64 | VBool bool

text \<open>The \<open>switch key\<close> of getValue: the value it prints.\<close>

definition getValue_switch :: "AgentConfig \<Rightarrow> string \<Rightarrow> error + go_value" where
  "getValue_switch config key =
     (if key = ''agent.name'' then Inr (VString (Name (Agent config)))
      else if key = ''agent.id'' then Inr (VString (ID (Agent config)))
      else if key = ''agent.erc8004_id'' then Inr (VInt (ERC8004ID (Agent config)))
      else if key = ''wallet.address'' then Inr (VString (Address (Wallet config)))
      else if key = ''wallet.daily_limit'' then Inr (VFloat (DailyLimit (Wallet config)))
      else if key = ''wallet.alert_threshold'' then
        Inr (VFloat (AlertThreshold (Wallet config)))
      else if key = ''security.firewall_enabled'' then
        Inr (VBool (FirewallEnabled (Security config)))
      else if key = ''security.honeypot_enabled'' then
        Inr (VBool (HoneypotEnabled (Security config)))
      else if key = ''monitoring.dashboard_port'' then
        Inr (VInt (DashboardPort (Monitoring config)))
      else Inl (UnknownKey key))"

definition getValue :: "string \<Rightarrow> FS \<Rightarrow> (error + go_value) \<times> FS" where
  "getValue key fs =
     (case loadConfig fs of
        Inl e \<Rightarrow> (Inl e, fs)
      | Inr config \<Rightarrow> (getValue_switch config key, fs))"

text \<open>
  The \<open>switch key\<close> of setValue. A scanned variable starts at zero and keeps it when
  Sscanf stores nothing; the result of Sscanf is not looked at.
\<close>

definition setValue_switch :: "AgentConfig \<Rightarrow> string \<Rightarrow> string \<Rightarrow> error + AgentConfig" where
  "setValue_switch config key v =
     (if key = ''api_keys.etherscan'' then
        Inr (config\<lparr>APIKeys := (APIKeys config)\<lparr>Etherscan := v\<rparr>\<rparr>)
      else if key = ''api_keys.basescan'' then
        Inr (config\<lparr>APIKeys := (APIKeys config)\<lparr>Basescan := v\<rparr>\<rparr>)
      else if key = ''api_keys.openai'' then
        Inr (config\<lparr>APIKeys := (APIKeys config)\<lparr>OpenAI := v\<rparr>\<rparr>)
      else if key = ''api_keys.anthropic'' then
        Inr (config\<lparr>APIKeys := (APIKeys config)\<lparr>Anthropic := v\<rparr>\<rparr>)
      else if key = ''api_keys.discord'' then
        Inr (config\<lparr>APIKeys := (APIKeys config)\<lparr>Discord := v\<rparr>\<rparr>)
      else if key = ''wallet.daily_limit'' then
        (let limit = (case Sscanf_f v of None \<Rightarrow> Finite 0 | Some f \<Rightarrow> f)
         in Inr (config\<lparr>Wallet := (Wallet config)\<lparr>DailyLimit := limit\<rparr>\<rparr>))
      else if key = ''wallet.alert_threshold'' then
        (let threshold = (case Sscanf_f v of None \<Rightarrow> Finite 0 | Some f \<Rightarrow> f)
         in Inr (config\<lparr>Wallet := (Wallet config)\<lparr>AlertThreshold := threshold\<rparr>\<rparr>))
      else if key = ''monitoring.webhook_url'' then
        Inr (config\<lparr>Monitoring := (Monitoring config)\<lparr>WebhookURL := v\<rparr>\<rparr>)
      else if key = ''monitoring.check_interval'' then
        (let interval = (case Sscanf_d v of None \<Rightarrow> 0 | Some i \<Rightarrow> i)
         in Inr (config\<lparr>Monitoring := (Monitoring config)\<lparr>CheckInterval := interval\<rparr>\<rparr>))
      else Inl (UnknownKey key))"

text \<open>On success setValue prints \<open>Set <key>\<close>; the outcome carries the key.\<close>

definition setValue :: "string \<Rightarrow> string \<Rightarrow> FS \<Rightarrow> (error + string) \<times> FS" where
  "setValue key v fs =
     (case loadConfig fs of
        Inl e \<Rightarrow> (Inl e, fs)
      | Inr config \<Rightarrow>
          (case setValue_switch config key v of
             Inl e \<Rightarrow> (Inl e, fs)
           | Inr config' \<Rightarrow>
               (case saveConfig config' fs of
                  Inl e \<Rightarrow> (Inl e, fs)
                | Inr fs' \<Rightarrow> (Inr key, fs'))))"

subsection \<open>validate\<close>

text \<open>The glyphs that open the messages, as UTF-8 bytes.\<close>

definition cross_mark :: string where
  "cross_mark = [CHR 0xE2, CHR 0x9D, CHR 0x8C]"

definition warning_sign :: string where
  "warning_sign = [CHR 0xE2, CHR 0x9A, CHR 0xA0, CHR 0xEF, CHR 0xB8, CHR 0x8F]"

definition check_mark :: string where
  "check_mark = [CHR 0xE2, CHR 0x9C, CHR 0x85]"

definition magnifier :: string where
  "magnifier = [CHR 0xF0, CHR 0x9F, CHR 0x94, CHR 0x8D]"

definition msg_address :: string where
  "msg_address = cross_mark @ '' Wallet address not set''"

definition msg_limit :: string where
  "msg_limit = warning_sign @ ''  Daily limit should be positive''"

definition msg_etherscan :: string where
  "msg_etherscan = warning_sign @ ''  Etherscan API key not set (needed for monitoring)''"

definition msg_basescan :: string where
  "msg_basescan = warning_sign @ ''  Basescan API key not set (needed for monitoring)''"

definition msg_security :: string where
  "msg_security = warning_sign @ ''  All security features disabled''"

text \<open>The checks of validateConfig, each appending to \<open>issues\<close>.\<close>

definition validate_issues :: "AgentConfig \<Rightarrow> string list" where
  "validate_issues config =
     (let issues = [];
          issues = (if Address (Wallet config) = [] then issues @ [msg_address] else issues);
          issues = (if float64_le_zero (DailyLimit (Wallet config))
                    then issues @ [msg_limit] else issues);
          issues = (if Etherscan (APIKeys config) = []
                    then issues @ [msg_etherscan] else issues);
          issues = (if Basescan (APIKeys config) = []
                    then issues @ [msg_basescan] else issues);
          issues = (if \<not> FirewallEnabled (Security config) \<and> \<not> HoneypotEnabled (Security config)
                    then issues @ [msg_security] else issues)
      in issues)"

text \<open>\<open>%d\<close> of a length.\<close>

fun show_digits :: "nat \<Rightarrow> nat \<Rightarrow> string" where
  "show_digits 0 n = []"
| "show_digits (Suc fuel) n =
     (if n < 10 then [char_of (48 + n)]
      else show_digits fuel (n div 10) @ [char_of (48 + n mod 10)])"

definition show_nat :: "nat \<Rightarrow> string" where
  "show_nat n = show_digits (Suc n) n"

text \<open>The lines validateConfig prints once the document is loaded.\<close>

definition validate_report :: "string list \<Rightarrow> string list" where
  "validate_report issues =
     [magnifier @ '' Validating configuration...'', []] @
     (if length issues = 0 then [check_mark @ '' Configuration is valid!'']
      else issues @ [[], ''Found '' @ show_nat (length issues) @ '' issue(s)''])"

definition validateConfig :: "FS \<Rightarrow> (error + string list) \<times> FS" where
  "validateConfig fs =
     (case loadConfig fs of
        Inl e \<Rightarrow> (Inl e, fs)
      | Inr config \<Rightarrow> (Inr (validate_report (validate_issues config)), fs))"

subsection \<open>export\<close>

text \<open>
  A \<open>map[string]interface{}\<close> literal is the list of its entries; json.MarshalIndent
  writes a map with its keys sorted.
\<close>

definition marshal_value :: "go_value \<Rightarrow> json option" where
  "marshal_value v =
     (case v of
        VString s \<Rightarrow> Some (marshal_string s)
      | VInt i \<Rightarrow> Some (marshal_int i)
      | VFloat f \<Rightarrow> marshal_float64 f
      | VBool b \<Rightarrow> Some (JBool b))"

fun marshal_entries :: "(string \<times> go_value) list \<Rightarrow> (string \<times> json) list option" where
  "marshal_entries [] = Some []"
| "marshal_entries ((k, v) # kvs) =
     (case marshal_value v of
        None \<Rightarrow> None
      | Some j \<Rightarrow> (case marshal_entries kvs of None \<Rightarrow> None | Some js \<Rightarrow> Some ((k, j) # js)))"

definition marshal_map :: "(string \<times> go_value) list \<Rightarrow> json option" where
  "marshal_map m = map_option JObject (marshal_entries (sort_key fst m))"

text \<open>
  exportToolConfig drops both errors: when marshalling fails it writes an empty file, and
  when the write fails nothing is written.
\<close>

definition exportToolConfig :: "string \<Rightarrow> (string \<times> go_value) list \<Rightarrow> FS \<Rightarrow> FS" where
  "exportToolConfig filename config fs =
     (let data = (case marshal_map config of None \<Rightarrow> NotJSON | Some j \<Rightarrow> JSONText j)
      in case WriteFile (ExportPath filename) data fs of None \<Rightarrow> fs | Some fs' \<Rightarrow> fs')"

definition walletConfig :: "AgentConfig \<Rightarrow> (string \<times> go_value) list" where
  "walletConfig config =
     [(''address'', VString (Address (Wallet config))),
      (''etherscan_key'', VString (Etherscan (APIKeys config))),
      (''basescan_key'', VString (Basescan (APIKeys config))),
      (''check_interval'', VInt (CheckInterval (Monitoring config))),
      (''alert_threshold'', VFloat (AlertThreshold (Wallet config))),
      (''webhook_url'', VString (WebhookURL (Monitoring config)))]"

definition scannerConfig :: "AgentConfig \<Rightarrow> (string \<times> go_value) list" where
  "scannerConfig config =
     [(''address'', VString (Address (Wallet config))),
      (''etherscan_key'', VString (Etherscan (APIKeys config))),
      (''basescan_key'', VString (Basescan (APIKeys config)))]"

definition dashboardConfig :: "AgentConfig \<Rightarrow> (string \<times> go_value) list" where
  "dashboardConfig config = [(''port'', VInt (DashboardPort (Monitoring config)))]"

definition exportConfig :: "FS \<Rightarrow> (error + unit) \<times> FS" where
  "exportConfig fs =
     (case loadConfig fs of
        Inl e \<Rightarrow> (Inl e, fs)
      | Inr config \<Rightarrow>
          (let fs1 = exportToolConfig ''wallet-monitor.json'' (walletConfig config) fs;
               fs2 = exportToolConfig ''reputation-scanner.json'' (scannerConfig config) fs1;
               fs3 = exportToolConfig ''security-dashboard.json'' (dashboardConfig config) fs2
           in (Inr (), fs3)))"

subsection \<open>main\<close>

text \<open>
  The exit status of one invocation and the file system it leaves. An unknown command
  prints the usage and returns normally.
\<close>

definition exit_status :: "(error + 'a) \<times> FS \<Rightarrow> nat \<times> FS" where
  "exit_status r = (case fst r of Inl e \<Rightarrow> 1 | Inr x \<Rightarrow> 0, snd r)"

definition main :: "string list \<Rightarrow> FS \<Rightarrow> nat \<times> FS" where
  "main args fs =
     (if length args < 2 then (1, fs)
      else
        let cmd = args ! 1 in
        if cmd = ''init'' then exit_status (initConfig fs)
        else if cmd = ''show'' then exit_status (showConfig fs)
        else if cmd = ''get'' then
          (if length args < 3 then (1, fs) else exit_status (getValue (args ! 2) fs))
        else if cmd = ''set'' then
          (if length args < 4 then (1, fs) else exit_status (setValue (args ! 2) (args ! 3) fs))
        else if cmd = ''validate'' then exit_status (validateConfig fs)
        else if cmd = ''export'' then exit_status (exportConfig fs)
        else if cmd = ''version'' then (0, fs)
        else (0, fs))"

section \<open>Documents that save and load unchanged\<close>

text \<open>
  json.MarshalIndent refuses a document only for a float that is NaN or an infinity, and
  changes a string only where it is not well-formed UTF-8. A document is valid when both
  of its floats are finite float64 values and every string in it is well-formed.
\<close>

definition valid_string :: "string \<Rightarrow> bool" where
  "valid_string s \<longleftrightarrow> utf8_coerce s = s"

definition valid_slice :: "string_slice \<Rightarrow> bool" where
  "valid_slice sl \<longleftrightarrow> (case sl of None \<Rightarrow> True | Some xs \<Rightarrow> list_all valid_string xs)"

definition valid_wallet :: "WalletConfig \<Rightarrow> bool" where
  "valid_wallet w \<longleftrightarrow> float64_finite (DailyLimit w) \<and> float64_finite (AlertThreshold w)"

definition text_AgentInfo :: "AgentInfo \<Rightarrow> bool" where
  "text_AgentInfo a \<longleftrightarrow>
     valid_string (Name a) \<and> valid_string (ID a) \<and> valid_string (Website a) \<and>
     valid_string (GitHub a)"

definition text_WalletConfig :: "WalletConfig \<Rightarrow> bool" where
  "text_WalletConfig w \<longleftrightarrow> valid_string (Address w) \<and> valid_slice (Networks w)"

definition text_SecurityConfig :: "SecurityConfig \<Rightarrow> bool" where
  "text_SecurityConfig s \<longleftrightarrow>
     valid_slice (WhitelistedAddresses s) \<and> valid_slice (BlacklistedAddresses s)"

definition text_APIKeysConfig :: "APIKeysConfig \<Rightarrow> bool" where
  "text_APIKeysConfig k \<longleftrightarrow>
     valid_string (Etherscan k) \<and> valid_string (Basescan k) \<and> valid_string (OpenAI k) \<and>
     valid_string (Anthropic k) \<and> valid_string (Discord k)"

definition text_MonitoringConfig :: "MonitoringConfig \<Rightarrow> bool" where
  "text_MonitoringConfig m \<longleftrightarrow> valid_string (WebhookURL m)"

definition valid_text :: "AgentConfig \<Rightarrow> bool" where
  "valid_text c \<longleftrightarrow>
     valid_string (Version c) \<and> text_AgentInfo (Agent c) \<and> text_WalletConfig (Wallet c) \<and>
     text_SecurityConfig (Security c) \<and> text_APIKeysConfig (APIKeys c) \<and>
     text_MonitoringConfig (Monitoring c)"

definition valid_config :: "AgentConfig \<Rightarrow> bool" where
  "valid_config c \<longleftrightarrow> valid_wallet (Wallet c) \<and> valid_text c"

section \<open>Sample inputs\<close>

text \<open>A file system with no file and nothing locked.\<close>

definition empty_FS :: FS where
  "empty_FS = \<lparr>files = Map.empty, locked = {}\<rparr>"

text \<open>The default document with both explorer keys set: it passes every check.\<close>

definition sample_config :: AgentConfig where
  "sample_config =
     defaultConfig\<lparr>APIKeys := zero_APIKeysConfig\<lparr>Etherscan := ''E1'', Basescan := ''B1''\<rparr>\<rparr>"

text \<open>The file system in which the configuration file holds a given document.\<close>

definition FS_with :: "AgentConfig \<Rightarrow> FS" where
  "FS_with c =
     \<lparr>files = (case marshal_AgentConfig c of
                  None \<Rightarrow> Map.empty
                | Some j \<Rightarrow> [ConfigPath \<mapsto> JSONText j]),
      locked = {}\<rparr>"

text \<open>The document of the specification's export example.\<close>

definition export_sample :: AgentConfig where
  "export_sample =
     defaultConfig
       \<lparr>Wallet := (Wallet defaultConfig)\<lparr>Address := ''0xABC'', AlertThreshold := Finite 0.2\<rparr>,
        APIKeys := zero_APIKeysConfig\<lparr>Etherscan := ''E1'', Basescan := ''B1''\<rparr>,
        Monitoring := (Monitoring defaultConfig)
          \<lparr>WebhookURL := ''https://x'', CheckInterval := 7\<rparr>\<rparr>"

section \<open>Well-formed UTF-8\<close>

lemma rune_len_prefix:
  assumes "0 < rune_len s"
  shows "rune_len (take (rune_len s) s @ t) = rune_len s"
proof (cases s)
  case Nil
  with assms show ?thesis by simp
next
  case (Cons c cs)
  consider "lead_size c = 1" | "lead_size c = 2" | "lead_size c = 3" | "lead_size c = 4"
    | "lead_size c \<noteq> 1 \<and> lead_size c \<noteq> 2 \<and> lead_size c \<noteq> 3 \<and> lead_size c \<noteq> 4"
    by blast
  then show ?thesis
  proof cases
    case 1
    then show ?thesis by (simp add: Cons)
  next
    case 2
    with assms Cons obtain c1 cs' where "cs = c1 # cs'" "second_ok c c1"
      by (auto split: list.splits if_splits)
    with 2 show ?thesis by (simp add: Cons)
  next
    case 3
    with assms Cons obtain c1 c2 cs' where "cs = c1 # c2 # cs'" "second_ok c c1" "cont c2"
      by (auto split: list.splits if_splits)
    with 3 show ?thesis by (simp add: Cons)
  next
    case 4
    with assms Cons obtain c1 c2 c3 cs' where
      "cs = c1 # c2 # c3 # cs'" "second_ok c c1" "cont c2" "cont c3"
      by (auto split: list.splits if_splits)
    with 4 show ?thesis by (simp add: Cons)
  next
    case 5
    with assms Cons show ?thesis by simp
  qed
qed

lemma rune_len_replacement: "rune_len (CHR 0xEF # CHR 0xBF # CHR 0xBD # t) = 3"
  by (simp add: lead_size_def second_ok_def cont_def)

lemma utf8_coerce_Nil: "utf8_coerce [] = []"
  by (subst utf8_coerce.simps) simp

lemma utf8_coerce_rune:
  assumes "0 < rune_len s"
  shows "utf8_coerce (take (rune_len s) s @ t) = take (rune_len s) s @ utf8_coerce t"
proof -
  let ?n = "rune_len s"
  have r: "rune_len (take ?n s @ t) = ?n" by (rule rune_len_prefix [OF assms])
  from rune_len_le [of s] have l: "length (take ?n s) = ?n" by simp
  with assms have ne: "take ?n s @ t \<noteq> []" by auto
  have "utf8_coerce (take ?n s @ t) =
      take ?n (take ?n s @ t) @ utf8_coerce (drop ?n (take ?n s @ t))"
    using r ne assms by (subst utf8_coerce.simps) (auto simp: utf8_coerce_Nil simp del: rune_len.simps)
  also have "\<dots> = take ?n s @ utf8_coerce t" using l by simp
  finally show ?thesis .
qed

lemma utf8_coerce_replacement:
  "utf8_coerce (CHR 0xEF # CHR 0xBF # CHR 0xBD # t) = CHR 0xEF # CHR 0xBF # CHR 0xBD # utf8_coerce t"
  by (subst utf8_coerce.simps) (simp add: rune_len_replacement del: rune_len.simps)

lemma utf8_coerce_idem: "utf8_coerce (utf8_coerce s) = utf8_coerce s"
proof (induction s rule: utf8_coerce.induct)
  case (1 s)
  show ?case
  proof (cases "s = []")
    case True
    then show ?thesis by (simp add: utf8_coerce_Nil)
  next
    case ne: False
    show ?thesis
    proof (cases "rune_len s = 0")
      case True
      with ne have e: "utf8_coerce s = CHR 0xEF # CHR 0xBF # CHR 0xBD # utf8_coerce (tl s)"
        by (subst utf8_coerce.simps) simp
      from "1.IH"(1) [OF ne True] show ?thesis
        by (simp add: e utf8_coerce_replacement)
    next
      case False
      with ne have e: "utf8_coerce s = take (rune_len s) s @ utf8_coerce (drop (rune_len s) s)"
        by (subst utf8_coerce.simps) simp
      from False have p: "0 < rune_len s" by simp
      from "1.IH"(2) [OF ne False] utf8_coerce_rune [OF p] show ?thesis
        by (simp add: e)
    qed
  qed
qed

lemma valid_string_coerce: "valid_string (utf8_coerce s)"
  by (simp add: valid_string_def utf8_coerce_idem)

lemma valid_string_ascii:
  assumes "\<forall>c\<in>set s. c < CHR 0x80"
  shows "valid_string s"
  unfolding valid_string_def using assms
proof (induction s)
  case Nil
  then show ?case by (simp add: utf8_coerce_Nil)
next
  case (Cons c cs)
  then have "rune_len (c # cs) = 1" by (simp add: lead_size_def)
  with Cons show ?case by (subst utf8_coerce.simps) simp
qed

lemma valid_string_Nil: "valid_string []"
  by (simp add: valid_string_def utf8_coerce_Nil)

lemma coerce_invalid_byte: "utf8_coerce [CHR 0xFF] = [CHR 0xEF, CHR 0xBF, CHR 0xBD]"
  by code_simp

lemma coerce_samples:
  "utf8_coerce [CHR 0xE2, CHR 0x9D, CHR 0x8C, CHR 0x41] = [CHR 0xE2, CHR 0x9D, CHR 0x8C, CHR 0x41]"
  "utf8_coerce [CHR 0xC0, CHR 0x80] = [CHR 0xEF, CHR 0xBF, CHR 0xBD, CHR 0xEF, CHR 0xBF, CHR 0xBD]"
  "utf8_coerce [CHR 0xED, CHR 0xA0, CHR 0x80] = [CHR 0xEF, CHR 0xBF, CHR 0xBD, CHR 0xEF, CHR 0xBF, CHR 0xBD, CHR 0xEF, CHR 0xBF, CHR 0xBD]"
  "utf8_coerce [CHR 0xF0, CHR 0x9F, CHR 0x94, CHR 0x8D] = [CHR 0xF0, CHR 0x9F, CHR 0x94, CHR 0x8D]"
  by code_simp+

section \<open>Marshal and Unmarshal are inverse on valid documents\<close>

lemma decode_members_append:
  "decode_members f (xs @ ys) a =
     (case decode_members f xs a of None \<Rightarrow> None | Some a' \<Rightarrow> decode_members f ys a')"
  by (induction xs arbitrary: a) (auto split: option.splits)

lemma decode_int_marshal: "decode_int (marshal_int i) cur = Some i"
proof -
  have "- (2 ^ 63) \<le> sint i" "sint i < 2 ^ 63"
    using sint_ge [of i] sint_lt [of i] by simp_all
  then show ?thesis by (simp add: decode_int_def marshal_int_def)
qed

lemma decode_float64_marshal:
  assumes "float64_finite f"
  shows "\<exists>j. marshal_float64 f = Some j \<and> decode_float64 j cur = Some f"
proof (cases f)
  case (Finite q)
  with assms have nov: "\<not> float64_overflow q" by simp
  show ?thesis
  proof (cases "q = of_int \<lfloor>q\<rfloor> \<and> \<bar>q\<bar> < 10 ^ 21")
    case True
    then have "of_int \<lfloor>q\<rfloor> = q" by simp
    with True nov Finite show ?thesis by (simp add: decode_float64_def)
  next
    case False
    with nov Finite show ?thesis by (auto simp add: decode_float64_def)
  qed
qed (use assms in simp_all)

lemma decode_string_marshal:
  "valid_string s \<Longrightarrow> decode_string (marshal_string s) cur = Some s"
  by (simp add: decode_string_def marshal_string_def valid_string_def utf8_coerce_idem)

lemma decode_elems_strings:
  "list_all valid_string xs \<Longrightarrow> decode_elems (map marshal_string xs) cur = Some xs"
  by (induction xs arbitrary: cur) (simp_all add: decode_string_marshal)

lemma decode_slice_marshal:
  "valid_slice s \<Longrightarrow> decode_slice (marshal_slice s) cur = Some s"
  by (cases s)
     (simp_all add: decode_slice_def marshal_slice_def decode_elems_strings valid_slice_def)

lemma roundtrip_AgentInfo:
  assumes "text_AgentInfo a"
  shows "decode_struct field_AgentInfo (marshal_AgentInfo a) zero_AgentInfo = Some a"
  using assms
  by (cases a)
     (simp add: decode_struct_def marshal_AgentInfo_def field_AgentInfo_def find_field_def
        decode_string_marshal decode_int_marshal zero_AgentInfo_def text_AgentInfo_def)

lemma roundtrip_SecurityConfig:
  assumes "text_SecurityConfig a"
  shows "decode_struct field_SecurityConfig (marshal_SecurityConfig a) zero_SecurityConfig = Some a"
  using assms
  by (cases a)
     (simp add: decode_struct_def marshal_SecurityConfig_def field_SecurityConfig_def find_field_def
        decode_bool_def decode_slice_marshal zero_SecurityConfig_def text_SecurityConfig_def)

lemma roundtrip_WalletConfig:
  assumes "valid_wallet w" "text_WalletConfig w"
  shows "\<exists>j. marshal_WalletConfig w = Some j \<and>
             decode_struct field_WalletConfig j zero_WalletConfig = Some w"
proof -
  from assms(1) have f: "float64_finite (DailyLimit w)" "float64_finite (AlertThreshold w)"
    by (simp_all add: valid_wallet_def)
  obtain dl where dl: "marshal_float64 (DailyLimit w) = Some dl"
      "\<And>cur. decode_float64 dl cur = Some (DailyLimit w)"
    using decode_float64_marshal [OF f(1)] by (metis option.inject)
  obtain th where th: "marshal_float64 (AlertThreshold w) = Some th"
      "\<And>cur. decode_float64 th cur = Some (AlertThreshold w)"
    using decode_float64_marshal [OF f(2)] by (metis option.inject)
  from dl th assms(2) show ?thesis
    by (cases w)
       (simp add: decode_struct_def marshal_WalletConfig_def field_WalletConfig_def
          find_field_def decode_string_marshal decode_slice_marshal zero_WalletConfig_def
          text_WalletConfig_def)
qed

lemma decode_omitempty:
  "decode_members f (omitempty k s @ rest) a =
     (if s = [] then decode_members f rest a
      else case f k (marshal_string s) a of
             None \<Rightarrow> None
           | Some a' \<Rightarrow> decode_members f rest a')"
  by (simp add: omitempty_def)

lemma roundtrip_APIKeysConfig:
  assumes "text_APIKeysConfig k"
  shows "decode_struct field_APIKeysConfig (marshal_APIKeysConfig k) zero_APIKeysConfig = Some k"
proof -
  have "decode_members field_APIKeysConfig
          (omitempty ''etherscan'' (Etherscan k) @ omitempty ''basescan'' (Basescan k) @
           omitempty ''openai'' (OpenAI k) @ omitempty ''anthropic'' (Anthropic k) @
           omitempty ''discord'' (Discord k) @ []) zero_APIKeysConfig = Some k"
    unfolding decode_omitempty using assms
    by (cases k)
       (simp add: field_APIKeysConfig_def find_field_def decode_string_marshal
          zero_APIKeysConfig_def text_APIKeysConfig_def)
  then show ?thesis by (simp add: decode_struct_def marshal_APIKeysConfig_def)
qed

lemma roundtrip_MonitoringConfig:
  assumes "text_MonitoringConfig m"
  shows "decode_struct field_MonitoringConfig (marshal_MonitoringConfig m) zero_MonitoringConfig =
           Some m"
  using assms
  by (cases m)
     (simp add: decode_struct_def marshal_MonitoringConfig_def field_MonitoringConfig_def
        find_field_def decode_string_marshal decode_bool_def decode_int_marshal omitempty_def
        zero_MonitoringConfig_def text_MonitoringConfig_def)

lemma roundtrip_AgentConfig:
  assumes "valid_config c"
  shows "\<exists>j. marshal_AgentConfig c = Some j \<and>
             unmarshal_AgentConfig j zero_AgentConfig = Some c"
proof -
  from assms have t: "valid_string (Version c)" "text_AgentInfo (Agent c)"
      "text_WalletConfig (Wallet c)" "text_SecurityConfig (Security c)"
      "text_APIKeysConfig (APIKeys c)" "text_MonitoringConfig (Monitoring c)"
      and f: "valid_wallet (Wallet c)"
    by (simp_all add: valid_config_def valid_text_def)
  obtain w where w: "marshal_WalletConfig (Wallet c) = Some w"
      "decode_struct field_WalletConfig w zero_WalletConfig = Some (Wallet c)"
    using roundtrip_WalletConfig [OF f t(3)] by blast
  from w t show ?thesis
    by (cases c)
       (simp add: unmarshal_AgentConfig_def marshal_AgentConfig_def
          decode_struct_def [of field_AgentConfig]
          field_AgentConfig_def find_field_def decode_string_marshal zero_AgentConfig_def
          roundtrip_AgentInfo roundtrip_SecurityConfig roundtrip_APIKeysConfig
          roundtrip_MonitoringConfig)
qed

lemma save_then_load:
  assumes "valid_config c" "ConfigPath \<notin> locked fs"
  shows "\<exists>fs'. saveConfig c fs = Inr fs' \<and> loadConfig fs' = Inr c"
proof -
  obtain j where "marshal_AgentConfig c = Some j" "unmarshal_AgentConfig j zero_AgentConfig = Some c"
    using roundtrip_AgentConfig [OF assms(1)] by blast
  with assms(2) show ?thesis
    by (simp add: saveConfig_def WriteFile_def loadConfig_def)
qed

section \<open>What is loaded is valid\<close>

lemma decode_members_invariant:
  assumes step: "\<And>k v a a'. f k v a = Some a' \<Longrightarrow> P a \<Longrightarrow> P a'"
  shows "decode_members f kvs a = Some a' \<Longrightarrow> P a \<Longrightarrow> P a'"
proof (induction kvs arbitrary: a)
  case Nil
  then show ?case by simp
next
  case (Cons kv kvs)
  obtain k v where kv: "kv = (k, v)" by (cases kv)
  from Cons.prems(1) kv obtain b where b: "f k v a = Some b" "decode_members f kvs b = Some a'"
    by (auto split: option.splits)
  from Cons.IH [OF b(2) step [OF b(1) Cons.prems(2)]] show ?case .
qed

lemma decode_struct_invariant:
  assumes step: "\<And>k v a a'. f k v a = Some a' \<Longrightarrow> P a \<Longrightarrow> P a'"
    and dec: "decode_struct f j a = Some a'" and init: "P a"
  shows "P a'"
proof (cases j)
  case JNull
  with dec init show ?thesis by (simp add: decode_struct_def)
next
  case (JObject kvs)
  with dec have "decode_members f kvs a = Some a'" by (simp add: decode_struct_def)
  then show ?thesis
    by (rule decode_members_invariant [where f = f and P = P, rotated]) (fact init, fact step)
qed (use dec in \<open>simp_all add: decode_struct_def\<close>)

lemma decode_float64_finite:
  "decode_float64 j cur = Some f \<Longrightarrow> float64_finite cur \<Longrightarrow> float64_finite f"
  by (cases j) (auto simp: decode_float64_def split: if_splits)

lemma decode_string_valid:
  "decode_string j cur = Some s \<Longrightarrow> valid_string cur \<Longrightarrow> valid_string s"
  by (cases j) (auto simp: decode_string_def valid_string_coerce)

lemma decode_elems_valid:
  "decode_elems js cur = Some ss \<Longrightarrow> list_all valid_string cur \<Longrightarrow> list_all valid_string ss"
proof (induction js arbitrary: cur ss)
  case Nil
  then show ?case by simp
next
  case (Cons j js)
  from Cons.prems(1) obtain s ss' where s: "decode_string j (case cur of [] \<Rightarrow> [] | c # _ \<Rightarrow> c) = Some s"
      and ss': "decode_elems js (tl cur) = Some ss'" and ss: "ss = s # ss'"
    by (auto split: option.splits)
  from Cons.prems(2) have "valid_string (case cur of [] \<Rightarrow> [] | c # _ \<Rightarrow> c)"
      and t: "list_all valid_string (tl cur)"
    by (cases cur; simp add: valid_string_Nil)+
  with s have "valid_string s" by (blast intro: decode_string_valid)
  with Cons.IH [OF ss' t] ss show ?case by simp
qed

lemma decode_slice_valid:
  assumes "decode_slice j cur = Some sl" and "valid_slice cur"
  shows "valid_slice sl"
proof (cases j)
  case (JArray js)
  with assms(1) obtain ss where ss: "decode_elems js (case cur of None \<Rightarrow> [] | Some xs \<Rightarrow> xs) = Some ss"
      and sl: "sl = Some ss"
    by (auto simp: decode_slice_def split: option.splits)
  from assms(2) have "list_all valid_string (case cur of None \<Rightarrow> [] | Some xs \<Rightarrow> xs)"
    by (cases cur) (simp_all add: valid_slice_def)
  from decode_elems_valid [OF ss this] sl show ?thesis by (simp add: valid_slice_def)
qed (use assms in \<open>auto simp: decode_slice_def valid_slice_def\<close>)

lemma field_AgentInfo_text:
  "field_AgentInfo k v a = Some a' \<Longrightarrow> text_AgentInfo a \<Longrightarrow> text_AgentInfo a'"
  by (auto simp: field_AgentInfo_def text_AgentInfo_def split: option.splits if_splits
      dest: decode_string_valid)

lemma field_WalletConfig_valid:
  "field_WalletConfig k v w = Some w' \<Longrightarrow> valid_wallet w \<and> text_WalletConfig w \<Longrightarrow>
   valid_wallet w' \<and> text_WalletConfig w'"
  by (auto simp: field_WalletConfig_def valid_wallet_def text_WalletConfig_def
      split: option.splits if_splits
      dest: decode_float64_finite decode_string_valid decode_slice_valid)

lemma field_SecurityConfig_text:
  "field_SecurityConfig k v s = Some s' \<Longrightarrow> text_SecurityConfig s \<Longrightarrow> text_SecurityConfig s'"
  by (auto simp: field_SecurityConfig_def text_SecurityConfig_def split: option.splits if_splits
      dest: decode_slice_valid)

lemma field_APIKeysConfig_text:
  "field_APIKeysConfig k v a = Some a' \<Longrightarrow> text_APIKeysConfig a \<Longrightarrow> text_APIKeysConfig a'"
  by (auto simp: field_APIKeysConfig_def text_APIKeysConfig_def split: option.splits if_splits
      dest: decode_string_valid)

lemma field_MonitoringConfig_text:
  "field_MonitoringConfig k v m = Some m' \<Longrightarrow> text_MonitoringConfig m \<Longrightarrow>
   text_MonitoringConfig m'"
  by (auto simp: field_MonitoringConfig_def text_MonitoringConfig_def
      split: option.splits if_splits dest: decode_string_valid)

lemma field_AgentConfig_valid:
  assumes "field_AgentConfig k v c = Some c'" "valid_config c"
  shows "valid_config c'"
proof -
  from assms(2) have c: "valid_string (Version c)" "text_AgentInfo (Agent c)"
      "valid_wallet (Wallet c) \<and> text_WalletConfig (Wallet c)"
      "text_SecurityConfig (Security c)" "text_APIKeysConfig (APIKeys c)"
      "text_MonitoringConfig (Monitoring c)"
    by (simp_all add: valid_config_def valid_text_def)
  have a: "text_AgentInfo x" if "decode_struct field_AgentInfo v (Agent c) = Some x" for x
    by (rule decode_struct_invariant [where f = field_AgentInfo and P = text_AgentInfo,
          OF field_AgentInfo_text that c(2)])
  have w: "valid_wallet x \<and> text_WalletConfig x"
    if "decode_struct field_WalletConfig v (Wallet c) = Some x" for x
    by (rule decode_struct_invariant [where f = field_WalletConfig
          and P = "\<lambda>w. valid_wallet w \<and> text_WalletConfig w",
          OF field_WalletConfig_valid that c(3)])
  have s: "text_SecurityConfig x" if "decode_struct field_SecurityConfig v (Security c) = Some x" for x
    by (rule decode_struct_invariant [where f = field_SecurityConfig and P = text_SecurityConfig,
          OF field_SecurityConfig_text that c(4)])
  have k: "text_APIKeysConfig x" if "decode_struct field_APIKeysConfig v (APIKeys c) = Some x" for x
    by (rule decode_struct_invariant [where f = field_APIKeysConfig and P = text_APIKeysConfig,
          OF field_APIKeysConfig_text that c(5)])
  have m: "text_MonitoringConfig x"
    if "decode_struct field_MonitoringConfig v (Monitoring c) = Some x" for x
    by (rule decode_struct_invariant [where f = field_MonitoringConfig
          and P = text_MonitoringConfig, OF field_MonitoringConfig_text that c(6)])
  have vs: "valid_string x" if "decode_string v (Version c) = Some x" for x
    using that c(1) by (rule decode_string_valid)
  from assms(1) c show ?thesis
    unfolding field_AgentConfig_def valid_config_def valid_text_def
    by (auto split: option.splits if_splits dest: a w s k m vs)
qed

lemma valid_zero_AgentConfig: "valid_config zero_AgentConfig"
  by (simp add: valid_config_def valid_text_def valid_wallet_def text_AgentInfo_def
      text_WalletConfig_def text_SecurityConfig_def text_APIKeysConfig_def
      text_MonitoringConfig_def valid_slice_def valid_string_Nil
      zero_AgentConfig_def zero_AgentInfo_def zero_WalletConfig_def zero_SecurityConfig_def
      zero_APIKeysConfig_def zero_MonitoringConfig_def float64_overflow_def)

lemma loadConfig_valid:
  assumes "loadConfig fs = Inr c"
  shows "valid_config c"
proof -
  from assms obtain j where "unmarshal_AgentConfig j zero_AgentConfig = Some c"
    by (auto simp: loadConfig_def split: option.splits file_data.splits)
  then have "decode_struct field_AgentConfig j zero_AgentConfig = Some c"
    by (simp add: unmarshal_AgentConfig_def)
  then show ?thesis
    by (rule decode_struct_invariant [where f = field_AgentConfig and P = valid_config, rotated])
       (rule valid_zero_AgentConfig, rule field_AgentConfig_valid)
qed

lemma valid_defaultConfig: "valid_config defaultConfig"
  by (simp add: valid_config_def valid_text_def valid_wallet_def text_AgentInfo_def
      text_WalletConfig_def text_SecurityConfig_def text_APIKeysConfig_def
      text_MonitoringConfig_def valid_slice_def valid_string_Nil valid_string_ascii
      defaultConfig_def version_def zero_APIKeysConfig_def float64_overflow_def)

lemma loadConfig_FS_with:
  assumes "valid_config c"
  shows "loadConfig (FS_with c) = Inr c"
proof -
  obtain j where "marshal_AgentConfig c = Some j" "unmarshal_AgentConfig j zero_AgentConfig = Some c"
    using roundtrip_AgentConfig [OF assms] by blast
  then show ?thesis by (simp add: FS_with_def loadConfig_def)
qed

lemma marshal_string_valid: "valid_string s \<Longrightarrow> marshal_string s = JString s"
  by (simp add: marshal_string_def valid_string_def)

lemma valid_export_sample: "valid_config export_sample"
  by (simp add: valid_config_def valid_text_def valid_wallet_def text_AgentInfo_def
      text_WalletConfig_def text_SecurityConfig_def text_APIKeysConfig_def
      text_MonitoringConfig_def valid_slice_def valid_string_Nil valid_string_ascii
      export_sample_def defaultConfig_def version_def zero_APIKeysConfig_def
      float64_overflow_def)

text \<open>A key that is not well-formed UTF-8 is saved, and loaded, as U+FFFD.\<close>

lemma save_invalid_utf8:
  "marshal_APIKeysConfig (zero_APIKeysConfig\<lparr>Etherscan := [CHR 0xFF]\<rparr>) =
     JObject [(''etherscan'', JString [CHR 0xEF, CHR 0xBF, CHR 0xBD])]"
  by (simp add: marshal_APIKeysConfig_def omitempty_def zero_APIKeysConfig_def
      marshal_string_def coerce_invalid_byte)

section \<open>Scanned floats, sorted keys\<close>

lemma Sscanf_f_finite:
  assumes "Sscanf_f v = Some (Finite q)"
  shows "\<not> float64_overflow q"
proof -
  have pf: "\<not> float64_overflow r" if "ParseFloat s = Some (Finite r)" for s r
    using that by (auto simp: ParseFloat_def special_def Let_def split: option.splits if_splits)
  from assms obtain s where cf: "convertFloat s = Some (Finite q)"
    by (auto simp: Sscanf_f_def split: option.splits if_splits)
  show ?thesis
  proof (cases "CHR ''p'' \<in> set s \<and> CHR ''x'' \<notin> set s \<and> CHR ''X'' \<notin> set s")
    case True
    with cf obtain f m where f: "ParseFloat (takeWhile (\<lambda>c. c \<noteq> CHR ''p'') s) = Some f"
        and l: "Ldexp f m = Finite q"
      by (auto simp: convertFloat_def split: option.splits)
    from l obtain r' where r': "f = Finite r'" by (cases f) (auto simp: Let_def split: if_splits)
    with f pf have "\<not> float64_overflow r'" by blast
    with l r' show ?thesis by (auto simp: Let_def split: if_splits)
  next
    case False
    with cf have "ParseFloat s = Some (Finite q)" by (auto simp: convertFloat_def)
    then show ?thesis by (rule pf)
  qed
qed

lemma marshal_finite:
  assumes "float64_finite f"
  obtains j where "marshal_float64 f = Some j"
  using assms by (cases f) auto

lemma sorted_walletConfig:
  "sort_key fst (walletConfig c) =
     [(''address'', VString (Address (Wallet c))),
      (''alert_threshold'', VFloat (AlertThreshold (Wallet c))),
      (''basescan_key'', VString (Basescan (APIKeys c))),
      (''check_interval'', VInt (CheckInterval (Monitoring c))),
      (''etherscan_key'', VString (Etherscan (APIKeys c))),
      (''webhook_url'', VString (WebhookURL (Monitoring c)))]"
  by (simp add: walletConfig_def)

lemma sorted_scannerConfig:
  "sort_key fst (scannerConfig c) =
     [(''address'', VString (Address (Wallet c))),
      (''basescan_key'', VString (Basescan (APIKeys c))),
      (''etherscan_key'', VString (Etherscan (APIKeys c)))]"
  by (simp add: scannerConfig_def)

section \<open>Inputs from which nothing is scanned\<close>

lemma SkipSpace_none_skipped:
  assumes "space_len (c # cs) = 0" and "c \<noteq> CHR 0x0A"
  shows "SkipSpace (c # cs) = Some (c # cs)"
  using assms by (subst SkipSpace.simps) simp

lemma letter_start:
  assumes "c \<in> set ''abcdfghjklmoqrstuvwxyzABCDFGHJKLMOQRSTUVWXYZ''"
  shows "space_len (c # cs) = 0" and "c \<noteq> CHR 0x0A"
    and "c \<notin> set ''nN+-iI0123456789_.eEpP''"
proof -
  from assms have "space_len (c # cs) = 0 \<and> c \<noteq> CHR 0x0A \<and>
      c \<notin> set ''nN+-iI0123456789_.eEpP''"
    unfolding set_simps space_len_def by (elim insertE emptyE) simp_all
  then show "space_len (c # cs) = 0" and "c \<noteq> CHR 0x0A"
    and "c \<notin> set ''nN+-iI0123456789_.eEpP''"
    by blast+
qed

lemma floatToken_refuse:
  assumes "c \<notin> set ''nN+-iI0123456789_.eEpP''"
  shows "floatToken (c # cs) = []"
  using assms
  by (simp add: floatToken_def accept_def accept_all_def decimalDigits_def Let_def)

lemma convertFloat_Nil: "convertFloat [] = None"
  by code_simp

lemma Sscanf_f_Nil: "Sscanf_f [] = None"
  by (simp add: Sscanf_f_def SkipSpace.simps)

lemma Sscanf_d_Nil: "Sscanf_d [] = None"
  by (simp add: Sscanf_d_def SkipSpace.simps)

lemma Sscanf_f_letter:
  assumes "c \<in> set ''abcdfghjklmoqrstuvwxyzABCDFGHJKLMOQRSTUVWXYZ''"
  shows "Sscanf_f (c # cs) = None"
  using SkipSpace_none_skipped [OF letter_start(1,2) [OF assms]]
    floatToken_refuse [OF letter_start(3) [OF assms]]
  by (simp add: Sscanf_f_def convertFloat_Nil)

lemma Sscanf_d_letter:
  assumes "c \<in> set ''abcdfghjklmoqrstuvwxyzABCDFGHJKLMOQRSTUVWXYZ''"
  shows "Sscanf_d (c # cs) = None"
proof -
  from letter_start(3) [OF assms] have "c \<notin> set ''+-''" "c \<notin> set decimalDigits"
    by (simp_all add: decimalDigits_def)
  then have "accept ''+-'' (c # cs) = ([], c # cs)"
      "accept_all decimalDigits (c # cs) = ([], c # cs)"
    by (simp_all add: accept_def accept_all_def)
  with SkipSpace_none_skipped [OF letter_start(1,2) [OF assms]] show ?thesis
    by (simp add: Sscanf_d_def)
qed

section \<open>Members of the file that set writes\<close>

lemma member_wallet:
  assumes "marshal_AgentConfig c = Some j"
  shows "\<exists>w. json_member ''wallet'' j = Some w \<and>
           marshal_float64 (DailyLimit (Wallet c)) = json_member ''daily_limit'' w \<and>
           marshal_float64 (AlertThreshold (Wallet c)) = json_member ''alert_threshold'' w"
  using assms
  by (auto simp: marshal_AgentConfig_def marshal_WalletConfig_def json_member_def
      split: option.splits)

lemma member_monitoring:
  assumes "marshal_AgentConfig c = Some j"
  shows "\<exists>m. json_member ''monitoring'' j = Some m \<and>
           json_member ''check_interval_minutes'' m =
             Some (JInt (sint (CheckInterval (Monitoring c))))"
  using assms
  by (auto simp: marshal_AgentConfig_def marshal_MonitoringConfig_def json_member_def
      omitempty_def marshal_int_def split: option.splits)

lemma marshal_defined:
  assumes "float64_finite (DailyLimit (Wallet c))" "float64_finite (AlertThreshold (Wallet c))"
  obtains j where "marshal_AgentConfig c = Some j"
proof -
  from assms obtain a b where "marshal_float64 (DailyLimit (Wallet c)) = Some a"
      "marshal_float64 (AlertThreshold (Wallet c)) = Some b"
    by (meson marshal_finite)
  then show ?thesis
    by (intro that) (simp add: marshal_AgentConfig_def marshal_WalletConfig_def)
qed

lemma set_runs:
  assumes "loadConfig fs = Inr c" and "ConfigPath \<notin> locked fs"
    and "setValue_switch c key v = Inr c'" and "marshal_AgentConfig c' = Some j"
  shows "setValue key v fs = (Inr key, fs\<lparr>files := (files fs)(ConfigPath \<mapsto> JSONText j)\<rparr>)"
    and "main [''acm'', ''set'', key, v] fs =
           (0, fs\<lparr>files := (files fs)(ConfigPath \<mapsto> JSONText j)\<rparr>)"
  using assms
  by (simp_all add: setValue_def main_def exit_status_def saveConfig_def WriteFile_def)

section \<open>Inputs that begin with a number\<close>

lemma digit_cases:
  "c \<in> set decimalDigits \<longleftrightarrow>
     c \<in> {CHR ''9'', CHR ''8'', CHR ''7'', CHR ''6'', CHR ''5'', CHR ''4'', CHR ''3'', CHR ''2'',
          CHR ''1'', CHR ''0''}"
  by (auto simp: decimalDigits_def)

lemma space_len_digit:
  assumes "c \<in> set decimalDigits \<or> c = CHR ''+'' \<or> c = CHR ''-''"
  shows "space_len (c # cs) = 0"
  using assms unfolding digit_cases space_len_def
  by (elim disjE insertE emptyE) simp_all

lemma SkipSpace_no_space:
  assumes "c \<in> set decimalDigits \<or> c = CHR ''+'' \<or> c = CHR ''-''"
  shows "SkipSpace (c # cs) = Some (c # cs)"
proof -
  from assms have "c \<noteq> CHR 0x0A" unfolding digit_cases by auto
  with space_len_digit [OF assms] show ?thesis by (subst SkipSpace.simps) simp
qed

lemma accept_all_prefix:
  assumes "set ds \<subseteq> set ok" and "rest = [] \<or> hd rest \<notin> set ok"
  shows "accept_all ok (ds @ rest) = (ds, rest)"
proof -
  from assms(1) have a: "\<forall>c\<in>set ds. c \<in> set ok" by blast
  from assms(2) have r: "takeWhile (\<lambda>c. c \<in> set ok) rest = []"
      "dropWhile (\<lambda>c. c \<in> set ok) rest = rest"
    by (cases rest; auto)+
  from a r show ?thesis
    by (simp add: accept_all_def takeWhile_append2 dropWhile_append2)
qed

lemma Sscanf_d_number:
  assumes ds: "ds \<noteq> []" "set ds \<subseteq> set decimalDigits"
    and rest: "rest = [] \<or> hd rest \<notin> set decimalDigits"
    and sg: "sg = [] \<or> sg = ''+'' \<or> sg = ''-''"
    and range: "- (2 ^ 63) \<le> (if sg = ''-'' then - digits_val 10 ds else digits_val 10 ds)"
      "(if sg = ''-'' then - digits_val 10 ds else digits_val 10 ds) < 2 ^ 63"
  shows "Sscanf_d (sg @ ds @ rest) =
           Some (word_of_int (if sg = ''-'' then - digits_val 10 ds else digits_val 10 ds))"
proof -
  obtain d ds' where d: "ds = d # ds'" using ds(1) by (cases ds) auto
  with ds(2) have dd: "d \<in> set decimalDigits" by simp
  then have dns: "d \<noteq> CHR ''+''" "d \<noteq> CHR ''-''" unfolding digit_cases by auto
  have sk: "SkipSpace (sg @ ds @ rest) = Some (sg @ ds @ rest)"
    using sg dd unfolding d by (elim disjE) (simp_all add: SkipSpace_no_space)
  have ac: "accept ''+-'' (sg @ ds @ rest) = (sg, ds @ rest)"
    using sg dns unfolding d by (elim disjE) (simp_all add: accept_def)
  have aa: "accept_all decimalDigits (ds @ rest) = (ds, rest)"
    by (rule accept_all_prefix [OF ds(2) rest])
  have ne: "sg @ ds @ rest \<noteq> []" using ds(1) by simp
  show ?thesis
    unfolding Sscanf_d_def sk using ne ac aa ds(1) range
    by (simp add: Let_def)
qed

lemma accept_refuse:
  assumes "s = [] \<or> hd s \<notin> set ok"
  shows "accept ok s = ([], s)"
  using assms by (cases s) (auto simp: accept_def)

lemma accept_take: "c \<in> set ok \<Longrightarrow> accept ok (c # cs) = ([c], cs)"
  by (simp add: accept_def)

lemma floatToken_digits:
  assumes ip: "ip \<noteq> []" "set ip \<subseteq> set decimalDigits"
    and r0: "r0 = [] \<or> hd r0 \<notin> set (decimalDigits @ ''_'')"
    and x0: "ip = ''0'' \<Longrightarrow> r0 = [] \<or> hd r0 \<notin> set ''xX''"
  shows "floatToken (ip @ r0) = ip @
     (case accept ''.'' r0 of (pt, s6) \<Rightarrow>
      case (if pt = [] then ([], s6) else accept_all (decimalDigits @ ''_'') s6) of (d2, s7) \<Rightarrow>
      case accept ''eEpP'' s7 of (ex, s8) \<Rightarrow>
      case (if ex = [] then ([], s8) else accept ''+-'' s8) of (es, s9) \<Rightarrow>
      case (if ex = [] then ([], s9) else accept_all (decimalDigits @ ''_'') s9) of
        (ed, _) \<Rightarrow> pt @ d2 @ ex @ es @ ed)"
proof -
  obtain d ip' where d: "ip = d # ip'" using ip(1) by (cases ip) auto
  with ip(2) have dd: "d \<in> set decimalDigits" and ip': "set ip' \<subseteq> set decimalDigits" by simp_all
  let ?s = "d # ip' @ r0"
  have n: "accept_seq [''nN'', ''aA'', ''nN''] ?s = ([], ?s, False)"
    using dd unfolding digit_cases by (auto simp: accept_def)
  have sg: "accept ''+-'' ?s = ([], ?s)"
    using dd unfolding digit_cases by (auto simp: accept_def)
  have nf: "accept_seq [''iI'', ''nN'', ''fF''] ?s = ([], ?s, False)"
    using dd unfolding digit_cases by (auto simp: accept_def)
  note r0' = r0
  have x: "accept ''xX'' (ip' @ r0) = ([], ip' @ r0)" if "d = CHR ''0''"
  proof (cases ip')
    case Nil
    with that d have "ip = ''0''" by simp
    from x0 [OF this] Nil show ?thesis by (simp add: accept_refuse)
  next
    case (Cons e es)
    with ip' have "e \<in> set decimalDigits" by simp
    then have "e \<notin> set ''xX''" unfolding digit_cases by auto
    with Cons show ?thesis by (simp add: accept_def)
  qed
  have all': "accept_all (decimalDigits @ ''_'') (ip' @ r0) = (ip', r0)"
    using ip' r0' by (intro accept_all_prefix) auto
  have all: "accept_all (decimalDigits @ ''_'') (d # ip' @ r0) = (d # ip', r0)"
    using accept_all_prefix [of "d # ip'" "decimalDigits @ ''_''" r0] ip' dd r0' by auto
  show ?thesis
  proof (cases "d = CHR ''0''")
    case True
    have hx: "accept_seq [''0'', ''xX''] ?s = ([d], ip' @ r0, False)"
      using True x [OF True] by (simp add: accept_def)
    show ?thesis
      by (simp add: d floatToken_def n sg nf hx all' Let_def del: accept_seq.simps
          split: prod.splits)
  next
    case False
    have hx: "accept_seq [''0'', ''xX''] ?s = ([], ?s, False)"
      using False by (simp add: accept_def)
    show ?thesis
      by (simp add: d floatToken_def n sg nf hx all Let_def del: accept_seq.simps
          split: prod.splits)
  qed
qed

lemma floatToken_number:
  assumes ip: "ip \<noteq> []" "set ip \<subseteq> set decimalDigits"
    and fr: "fr = [] \<or> (\<exists>fp. fr = CHR ''.'' # fp \<and> set fp \<subseteq> set decimalDigits)"
    and rest: "rest = [] \<or> hd rest \<notin> set (decimalDigits @ ''_.eEpP'')"
    and x0: "ip = ''0'' \<and> fr = [] \<Longrightarrow> rest = [] \<or> hd rest \<notin> set ''xX''"
  shows "floatToken (ip @ fr @ rest) = ip @ fr"
proof -
  have e: "accept ''eEpP'' rest = ([], rest)" "accept ''.'' rest = ([], rest)"
    using rest by (auto intro!: accept_refuse)
  from fr show ?thesis
  proof
    assume "fr = []"
    moreover have "rest = [] \<or> hd rest \<notin> set (decimalDigits @ ''_'')" using rest by auto
    moreover have "rest = [] \<or> hd rest \<notin> set ''xX''" if "ip = ''0''"
      using x0 that \<open>fr = []\<close> by blast
    ultimately show ?thesis
      using floatToken_digits [OF ip, of rest] e by simp
  next
    assume "\<exists>fp. fr = CHR ''.'' # fp \<and> set fp \<subseteq> set decimalDigits"
    then obtain fp where fp: "fr = CHR ''.'' # fp" "set fp \<subseteq> set decimalDigits" by blast
    have r0: "fr @ rest = [] \<or> hd (fr @ rest) \<notin> set (decimalDigits @ ''_'')"
      using fp(1) by (simp add: decimalDigits_def)
    have r1: "fr @ rest = [] \<or> hd (fr @ rest) \<notin> set ''xX''"
      using fp(1) by simp
    have a: "accept_all (decimalDigits @ ''_'') (fp @ rest) = (fp, rest)"
      using fp(2) rest by (intro accept_all_prefix) auto
    show ?thesis
      using floatToken_digits [OF ip r0 r1] e a by (simp add: fp(1) accept_def)
  qed
qed

lemma is_digit_decimal: "c \<in> set decimalDigits \<Longrightarrow> is_digit c"
  unfolding digit_cases is_digit_def by auto

lemma lower_decimal: "c \<in> set decimalDigits \<Longrightarrow> lower c = c"
  unfolding digit_cases lower_def by auto

lemma filter_no_underscore:
  "CHR ''_'' \<notin> set xs \<Longrightarrow> filter (\<lambda>c. c \<noteq> CHR ''_'') xs = xs"
  by (induction xs) auto

lemma readFloat_number:
  assumes ip: "ip \<noteq> []" "set ip \<subseteq> set decimalDigits"
    and fr: "fr = [] \<and> fp = [] \<or> fr = CHR ''.'' # fp \<and> set fp \<subseteq> set decimalDigits"
  shows "readFloat (ip @ fr) =
           Some (of_int (digits_val 10 (ip @ fp)) * power_int 10 (- int (length fp)))"
proof -
  obtain d ip' where d: "ip = d # ip'" using ip(1) by (cases ip) auto
  with ip(2) have dd: "d \<in> set decimalDigits" by simp
  have fpd: "set fp \<subseteq> set decimalDigits" using fr by auto
  let ?isd = "\<lambda>c. c = CHR ''_'' \<or> is_digit c"
  have sg: "accept ''+-'' (ip @ fr) = ([], ip @ fr)"
    using dd unfolding d digit_cases by (auto simp: accept_def)
  have nh: "(length (ip @ fr) > 2 \<and> hd (ip @ fr) = CHR ''0'' \<and>
              lower ((ip @ fr) ! 1) = CHR ''x'') = False"
  proof (cases "ip' @ fr")
    case Nil
    then show ?thesis by (simp add: d)
  next
    case (Cons e es)
    have "e \<in> set decimalDigits \<or> e = CHR ''.''"
    proof (cases ip')
      case Nil
      with Cons fr show ?thesis by auto
    next
      case (Cons a as)
      with \<open>ip' @ fr = e # es\<close> ip(2) d show ?thesis by auto
    qed
    then have "lower e \<noteq> CHR ''x''"
      unfolding digit_cases by (auto simp: lower_def)
    moreover from Cons have "(ip @ fr) ! 1 = e" by (simp add: d)
    ultimately show ?thesis by simp
  qed
  have ipd: "\<forall>c\<in>set ip. ?isd c" using ip(2) is_digit_decimal by blast
  have fpi: "\<forall>c\<in>set fp. ?isd c" using fpd is_digit_decimal by blast
  have dot: "\<not> is_digit (CHR ''.'')" by (simp add: is_digit_def)
  have tfr: "takeWhile ?isd fr = []" "dropWhile ?isd fr = fr"
    using fr dot by (cases fr; simp)+
  have tw: "takeWhile ?isd (ip @ fr) = ip" "dropWhile ?isd (ip @ fr) = fr"
    using ipd by (simp_all add: takeWhile_append2 dropWhile_append2 tfr)
  have tf: "takeWhile ?isd fp = fp" "dropWhile ?isd fp = []"
    using fpi by (simp_all add: takeWhile_eq_all_conv)
  have rm: "read_mantissa False (ip @ fr) = (ip, fp, [])"
  proof (cases "fr = []")
    case True
    with fr have "fp = []" by auto
    with True show ?thesis
      unfolding read_mantissa_def Let_def if_False tw by simp
  next
    case False
    with fr have f: "fr = CHR ''.'' # fp" by auto
    show ?thesis
      unfolding read_mantissa_def Let_def if_False tw
      unfolding f by (simp add: tf)
  qed
  have c: "CHR ''_'' \<notin> set decimalDigits" by (simp add: decimalDigits_def)
  have us: "CHR ''_'' \<notin> set ip" "CHR ''_'' \<notin> set fp"
    using ip(2) fpd c by (meson subsetD)+
  have fl: "filter (\<lambda>c. c \<noteq> CHR ''_'') (ip @ fp) = ip @ fp"
      "filter (\<lambda>c. c \<noteq> CHR ''_'') fp = fp"
    using us by (simp_all add: filter_no_underscore)
  have "CHR ''_'' \<notin> set fr"
  proof (cases "fr = []")
    case True
    then show ?thesis by simp
  next
    case False
    with fr have "set fr = insert (CHR ''.'') (set fp)" by force
    with us(2) show ?thesis by simp
  qed
  with us(1) have nu: "(CHR ''_'' \<in> set (ip @ fr)) = False" by simp
  have ne: "(ip @ fp = []) = False" using ip(1) by simp
  show ?thesis
    unfolding readFloat_def sg prod.case Let_def nh if_False rm fl nu ne
    by simp
qed

lemma convertFloat_number:
  assumes ip: "ip \<noteq> []" "set ip \<subseteq> set decimalDigits"
    and fr: "fr = [] \<and> fp = [] \<or> fr = CHR ''.'' # fp \<and> set fp \<subseteq> set decimalDigits"
    and range: "\<not> float64_overflow
                  (of_int (digits_val 10 (ip @ fp)) * power_int 10 (- int (length fp)))"
  shows "convertFloat (ip @ fr) =
           Some (Finite (of_int (digits_val 10 (ip @ fp)) * power_int 10 (- int (length fp))))"
proof -
  obtain d ip' where d: "ip = d # ip'" using ip(1) by (cases ip) auto
  with ip(2) have dd: "d \<in> set decimalDigits" by simp
  have "hd (map lower (ip @ fr)) = d" using lower_decimal [OF dd] by (simp add: d)
  moreover have "d \<notin> {CHR ''n'', CHR ''i'', CHR ''+'', CHR ''-''}"
    using dd unfolding digit_cases by auto
  ultimately have sp: "special (ip @ fr) = None"
    unfolding special_def Let_def by (auto simp del: map_append)
  have np: "CHR ''p'' \<notin> set (ip @ fr)"
    using ip(2) fr by (auto simp: decimalDigits_def)
  show ?thesis
    using np sp readFloat_number [OF ip fr] range
    by (simp add: convertFloat_def ParseFloat_def)
qed

lemma Sscanf_f_number:
  assumes ip: "ip \<noteq> []" "set ip \<subseteq> set decimalDigits"
    and fr: "fr = [] \<and> fp = [] \<or> fr = CHR ''.'' # fp \<and> set fp \<subseteq> set decimalDigits"
    and rest: "rest = [] \<or> hd rest \<notin> set (decimalDigits @ ''_.eEpP'')"
    and x0: "ip = ''0'' \<and> fr = [] \<Longrightarrow> rest = [] \<or> hd rest \<notin> set ''xX''"
    and range: "\<not> float64_overflow
                  (of_int (digits_val 10 (ip @ fp)) * power_int 10 (- int (length fp)))"
  shows "Sscanf_f (ip @ fr @ rest) =
           Some (Finite (of_int (digits_val 10 (ip @ fp)) * power_int 10 (- int (length fp))))"
proof -
  obtain d ip' where d: "ip = d # ip'" using ip(1) by (cases ip) auto
  with ip(2) have dd: "d \<in> set decimalDigits" by simp
  have sk: "SkipSpace (ip @ fr @ rest) = Some (ip @ fr @ rest)"
    using dd unfolding d by (simp add: SkipSpace_no_space)
  from fr have "fr = [] \<or> (\<exists>fp. fr = CHR ''.'' # fp \<and> set fp \<subseteq> set decimalDigits)"
    by blast
  from floatToken_number [OF ip this rest x0]
  have tk: "floatToken (ip @ fr @ rest) = ip @ fr" .
  have ne: "ip @ fr @ rest \<noteq> []" using ip(1) by simp
  from convertFloat_number [OF ip fr range] sk tk ne show ?thesis
    by (simp add: Sscanf_f_def)
qed

lemma digit_val_decimal: "c \<in> set decimalDigits \<Longrightarrow> 0 \<le> digit_val c"
  unfolding digit_cases digit_val_def by (elim insertE emptyE) simp_all

lemma foldl_digits_nonneg:
  assumes "set ds \<subseteq> set decimalDigits" and "0 \<le> n"
  shows "0 \<le> foldl (\<lambda>n c. 10 * n + digit_val c) n ds"
  using assms
proof (induction ds arbitrary: n)
  case Nil
  then show ?case by simp
next
  case (Cons c cs)
  from Cons.prems have "0 \<le> digit_val c" by (simp add: digit_val_decimal)
  with Cons.prems have "0 \<le> 10 * n + digit_val c" by simp
  with Cons.IH [of "10 * n + digit_val c"] Cons.prems show ?case by simp
qed

lemma digits_val_nonneg: "set ds \<subseteq> set decimalDigits \<Longrightarrow> 0 \<le> digits_val 10 ds"
  unfolding digits_val_def by (rule foldl_digits_nonneg) simp_all

section \<open>The claims\<close>

subsection \<open>C5: save then load\<close>

text \<open>
  C5. A document is valid when its two floats are finite and its strings are well-formed
  UTF-8: these are the values a JSON text can hold (a NaN or an infinity makes
  json.MarshalIndent fail, and a byte that is not UTF-8 is written as U+FFFD, see
  \<open>save_invalid_utf8\<close>). For every valid document, and a
  configuration path that can be written, saveConfig followed by loadConfig gives back the
  same document, field for field. In the file written, the \<open>api_keys\<close> object has
  exactly the keys whose strings are not empty, in declaration order, and the
  \<open>monitoring\<close> object has the key \<open>webhook_url\<close> exactly when the URL is not empty;
  since loading gives back the document, a field left out reads back as the empty string.
\<close>

theorem C5_save_load_roundtrip:
  assumes "valid_config c" and "ConfigPath \<notin> locked fs"
  shows "\<exists>fs' ag w se. saveConfig c fs = Inr fs' \<and> loadConfig fs' = Inr c \<and>
           files fs' ConfigPath = Some (JSONText (JObject
             [(''version'', JString (Version c)),
              (''agent'', ag),
              (''wallet'', w),
              (''security'', se),
              (''api_keys'',
                 JObject (map (\<lambda>(k, s). (k, JString s))
                   (filter (\<lambda>(k, s). s \<noteq> [])
                     [(''etherscan'', Etherscan (APIKeys c)),
                      (''basescan'', Basescan (APIKeys c)),
                      (''openai'', OpenAI (APIKeys c)),
                      (''anthropic'', Anthropic (APIKeys c)),
                      (''discord'', Discord (APIKeys c))]))),
              (''monitoring'',
                 JObject ([(''dashboard_enabled'', JBool (DashboardEnabled (Monitoring c))),
                           (''dashboard_port'', JInt (sint (DashboardPort (Monitoring c))))] @
                          map (\<lambda>(k, s). (k, JString s))
                            (filter (\<lambda>(k, s). s \<noteq> [])
                              [(''webhook_url'', WebhookURL (Monitoring c))]) @
                          [(''check_interval_minutes'',
                            JInt (sint (CheckInterval (Monitoring c))))]))]))"
proof -
  obtain j where j: "marshal_AgentConfig c = Some j"
      "unmarshal_AgentConfig j zero_AgentConfig = Some c"
    using roundtrip_AgentConfig [OF assms(1)] by blast
  from assms(1) have str: "marshal_string (Version c) = JString (Version c)"
      "marshal_string (Etherscan (APIKeys c)) = JString (Etherscan (APIKeys c))"
      "marshal_string (Basescan (APIKeys c)) = JString (Basescan (APIKeys c))"
      "marshal_string (OpenAI (APIKeys c)) = JString (OpenAI (APIKeys c))"
      "marshal_string (Anthropic (APIKeys c)) = JString (Anthropic (APIKeys c))"
      "marshal_string (Discord (APIKeys c)) = JString (Discord (APIKeys c))"
      "marshal_string (WebhookURL (Monitoring c)) = JString (WebhookURL (Monitoring c))"
    by (simp_all add: valid_config_def valid_text_def text_APIKeysConfig_def
        text_MonitoringConfig_def marshal_string_valid)
  have keys: "marshal_APIKeysConfig (APIKeys c) =
             JObject (map (\<lambda>(k, s). (k, JString s))
               (filter (\<lambda>(k, s). s \<noteq> [])
                 [(''etherscan'', Etherscan (APIKeys c)), (''basescan'', Basescan (APIKeys c)),
                  (''openai'', OpenAI (APIKeys c)), (''anthropic'', Anthropic (APIKeys c)),
                  (''discord'', Discord (APIKeys c))]))"
    by (simp add: marshal_APIKeysConfig_def omitempty_def str)
  have mon: "marshal_MonitoringConfig (Monitoring c) =
             JObject ([(''dashboard_enabled'', JBool (DashboardEnabled (Monitoring c))),
                       (''dashboard_port'', JInt (sint (DashboardPort (Monitoring c))))] @
                      map (\<lambda>(k, s). (k, JString s))
                        (filter (\<lambda>(k, s). s \<noteq> [])
                          [(''webhook_url'', WebhookURL (Monitoring c))]) @
                      [(''check_interval_minutes'',
                        JInt (sint (CheckInterval (Monitoring c))))])"
    by (simp add: marshal_MonitoringConfig_def omitempty_def marshal_int_def str)
  from j(1) obtain w where w: "marshal_WalletConfig (Wallet c) = Some w"
      and jw: "j = JObject
          [(''version'', JString (Version c)),
           (''agent'', marshal_AgentInfo (Agent c)),
           (''wallet'', w),
           (''security'', marshal_SecurityConfig (Security c)),
           (''api_keys'', marshal_APIKeysConfig (APIKeys c)),
           (''monitoring'', marshal_MonitoringConfig (Monitoring c))]"
    by (auto simp: marshal_AgentConfig_def str split: option.splits)
  from j assms(2)
  have s: "saveConfig c fs = Inr (fs\<lparr>files := (files fs)(ConfigPath \<mapsto> JSONText j)\<rparr>)"
    by (simp add: saveConfig_def WriteFile_def)
  from j
  have l: "loadConfig (fs\<lparr>files := (files fs)(ConfigPath \<mapsto> JSONText j)\<rparr>) = Inr c"
    by (simp add: loadConfig_def)
  have "files (fs\<lparr>files := (files fs)(ConfigPath \<mapsto> JSONText j)\<rparr>) ConfigPath =
      Some (JSONText j)"
    by simp
  with s l show ?thesis unfolding jw keys mon by blast
qed

theorem C5_save_load_roundtrip_witness:
  "valid_config export_sample \<and> ConfigPath \<notin> locked empty_FS \<and>
   (\<exists>fs' ag w se. saveConfig export_sample empty_FS = Inr fs' \<and>
      loadConfig fs' = Inr export_sample \<and>
      files fs' ConfigPath = Some (JSONText (JObject
        [(''version'', JString ''0.1.0''), (''agent'', ag), (''wallet'', w), (''security'', se),
         (''api_keys'', JObject [(''etherscan'', JString ''E1''), (''basescan'', JString ''B1'')]),
         (''monitoring'',
            JObject [(''dashboard_enabled'', JBool True), (''dashboard_port'', JInt 8080),
                     (''webhook_url'', JString ''https://x''),
                     (''check_interval_minutes'', JInt 7)])])))"
proof -
  have l: "ConfigPath \<notin> locked empty_FS" by (simp add: empty_FS_def)
  have e: "Version export_sample = ''0.1.0''"
      "Etherscan (APIKeys export_sample) = ''E1''" "Basescan (APIKeys export_sample) = ''B1''"
      "OpenAI (APIKeys export_sample) = []" "Anthropic (APIKeys export_sample) = []"
      "Discord (APIKeys export_sample) = []"
      "WebhookURL (Monitoring export_sample) = ''https://x''"
      "DashboardEnabled (Monitoring export_sample) = True"
      "sint (DashboardPort (Monitoring export_sample)) = 8080"
      "sint (CheckInterval (Monitoring export_sample)) = 7"
    by (simp_all add: export_sample_def defaultConfig_def version_def zero_APIKeysConfig_def)
  from C5_save_load_roundtrip [OF valid_export_sample l] valid_export_sample l
  show ?thesis unfolding e by simp
qed

subsection \<open>C6: init twice\<close>

text \<open>
  C6. When the configuration file exists, initConfig leaves the file system as it is and
  reports that the file already exists. Running initConfig a second time leaves the file
  system, and so the stored document, as the first run left it; after a run that created
  the file, the next run reports that it already exists.
\<close>

theorem C6_init_idempotent:
  "(files fs ConfigPath \<noteq> None \<longrightarrow> initConfig fs = (Inr AlreadyExists, fs)) \<and>
   snd (initConfig (snd (initConfig fs))) = snd (initConfig fs) \<and>
   loadConfig (snd (initConfig (snd (initConfig fs)))) = loadConfig (snd (initConfig fs)) \<and>
   (\<forall>fs'. initConfig fs = (Inr Created, fs') \<longrightarrow> initConfig fs' = (Inr AlreadyExists, fs'))"
proof -
  have a: "files fs ConfigPath \<noteq> None \<longrightarrow> initConfig fs = (Inr AlreadyExists, fs)"
    by (simp add: initConfig_def)
  have d: "initConfig fs' = (Inr AlreadyExists, fs')" if "initConfig fs = (Inr Created, fs')" for fs'
    using that
    by (auto simp: initConfig_def saveConfig_def WriteFile_def
        split: if_splits sum.splits option.splits)
  have b: "snd (initConfig (snd (initConfig fs))) = snd (initConfig fs)"
  proof (cases "initConfig fs")
    case (Pair r fs')
    show ?thesis
    proof (cases r)
      case (Inl e)
      with Pair have "fs' = fs" by (auto simp: initConfig_def split: if_splits sum.splits)
      with Pair show ?thesis by simp
    next
      case (Inr x)
      show ?thesis
      proof (cases x)
        case AlreadyExists
        with Inr Pair have "fs' = fs" by (auto simp: initConfig_def split: if_splits sum.splits)
        with Pair show ?thesis by simp
      next
        case Created
        with Inr Pair d [of fs'] show ?thesis by simp
      qed
    qed
  qed
  from a b d show ?thesis by simp
qed

theorem C6_init_idempotent_witness:
  "files (snd (initConfig empty_FS)) ConfigPath \<noteq> None \<and>
   initConfig (snd (initConfig empty_FS)) = (Inr AlreadyExists, snd (initConfig empty_FS)) \<and>
   fst (initConfig empty_FS) = Inr Created"
proof -
  obtain j where j: "marshal_AgentConfig defaultConfig = Some j"
    using roundtrip_AgentConfig [OF valid_defaultConfig] by blast
  then have i: "initConfig empty_FS =
      (Inr Created, empty_FS\<lparr>files := (files empty_FS)(ConfigPath \<mapsto> JSONText j)\<rparr>)"
    by (simp add: initConfig_def saveConfig_def WriteFile_def empty_FS_def)
  then have e: "files (snd (initConfig empty_FS)) ConfigPath \<noteq> None" by simp
  with C6_init_idempotent [of "snd (initConfig empty_FS)"] i show ?thesis by simp
qed

subsection \<open>C8: validate changes nothing\<close>

text \<open>
  C8. validateConfig leaves the file system as it found it, and so does the invocation
  \<open>acm validate\<close>. Whenever the document loads, the invocation ends with exit status 0,
  whatever the issues found.
\<close>

theorem C8_validate_frame:
  "snd (validateConfig fs) = fs \<and>
   snd (main [''acm'', ''validate''] fs) = fs \<and>
   (\<forall>c. loadConfig fs = Inr c \<longrightarrow>
      fst (validateConfig fs) = Inr (validate_report (validate_issues c)) \<and>
      fst (main [''acm'', ''validate''] fs) = 0)"
  by (auto simp: validateConfig_def main_def exit_status_def split: sum.splits)

theorem C8_validate_frame_witness:
  "loadConfig (FS_with zero_AgentConfig) = Inr zero_AgentConfig \<and>
   length (validate_issues zero_AgentConfig) = 5 \<and>
   main [''acm'', ''validate''] (FS_with zero_AgentConfig) = (0, FS_with zero_AgentConfig)"
proof -
  have l: "loadConfig (FS_with zero_AgentConfig) = Inr zero_AgentConfig"
    by (rule loadConfig_FS_with [OF valid_zero_AgentConfig])
  have n: "length (validate_issues zero_AgentConfig) = 5"
    by (simp add: validate_issues_def zero_AgentConfig_def zero_WalletConfig_def
        zero_APIKeysConfig_def zero_SecurityConfig_def)
  from C8_validate_frame [of "FS_with zero_AgentConfig"] l n show ?thesis
    by (simp add: prod_eq_iff)
qed

subsection \<open>C9: the default document\<close>

text \<open>
  C9. When no configuration file exists and the path can be written, initConfig creates
  the file, and the document it holds loads as defaultConfig: version 0.1.0; the agent
  identity Arithmos, arithmos-quillsworth, 1941 with its website and GitHub address; the
  networks ethereum and base, a daily limit of 0.5 and an alert threshold of 0.1; the
  four security flags true and both address lists empty; the five API keys empty; the
  dashboard enabled on port 8080, a check interval of 5 and no webhook URL.
\<close>

theorem C9_default_document:
  assumes "files fs ConfigPath = None" and "ConfigPath \<notin> locked fs"
  shows "(\<exists>fs'. initConfig fs = (Inr Created, fs') \<and> loadConfig fs' = Inr defaultConfig) \<and>
    Version defaultConfig = ''0.1.0'' \<and>
    Agent defaultConfig =
      \<lparr>Name = ''Arithmos'', ID = ''arithmos-quillsworth'', ERC8004ID = 1941,
       Website = ''https://arithmos.dev'',
       GitHub = ''https://github.com/arithmosquillsworth''\<rparr> \<and>
    Address (Wallet defaultConfig) = ''0x120e011fB8a12bfcB61e5c1d751C26A5D33Aae91'' \<and>
    Networks (Wallet defaultConfig) = Some [''ethereum'', ''base''] \<and>
    DailyLimit (Wallet defaultConfig) = Finite 0.5 \<and>
    AlertThreshold (Wallet defaultConfig) = Finite 0.1 \<and>
    Security defaultConfig =
      \<lparr>FirewallEnabled = True, HoneypotEnabled = True, PromptGuardEnabled = True,
       SimulatorEnabled = True, WhitelistedAddresses = Some [],
       BlacklistedAddresses = Some []\<rparr> \<and>
    APIKeys defaultConfig =
      \<lparr>Etherscan = [], Basescan = [], OpenAI = [], Anthropic = [], Discord = []\<rparr> \<and>
    Monitoring defaultConfig =
      \<lparr>DashboardEnabled = True, DashboardPort = 8080, WebhookURL = [], CheckInterval = 5\<rparr>"
proof -
  from save_then_load [OF valid_defaultConfig assms(2)] assms(1)
  have "\<exists>fs'. initConfig fs = (Inr Created, fs') \<and> loadConfig fs' = Inr defaultConfig"
    by (auto simp: initConfig_def)
  then show ?thesis
    by (simp add: defaultConfig_def version_def zero_APIKeysConfig_def)
qed

theorem C9_default_document_witness:
  "files empty_FS ConfigPath = None \<and> ConfigPath \<notin> locked empty_FS \<and>
   (\<exists>fs'. initConfig empty_FS = (Inr Created, fs') \<and> loadConfig fs' = Inr defaultConfig)"
proof -
  have f: "files empty_FS ConfigPath = None" and l: "ConfigPath \<notin> locked empty_FS"
    by (simp_all add: empty_FS_def)
  from C9_default_document [OF f l] f l show ?thesis by blast
qed

subsection \<open>C1: the keys of get and set\<close>

text \<open>
  C1. The switch of getValue gives a value exactly for the nine keys agent.name, agent.id,
  agent.erc8004_id, wallet.address, wallet.daily_limit, wallet.alert_threshold,
  security.firewall_enabled, security.honeypot_enabled and monitoring.dashboard_port; the
  switch of setValue gives a changed document exactly for the nine keys
  api_keys.etherscan, api_keys.basescan, api_keys.openai, api_keys.anthropic,
  api_keys.discord, wallet.daily_limit, wallet.alert_threshold, monitoring.webhook_url
  and monitoring.check_interval. For any other key each fails with UnknownKey, and on a
  document that loads the commands \<open>get\<close> and \<open>set\<close> then leave the file system as
  it is and exit with status 1.
\<close>

theorem C1_dispatch_tables:
  "((\<exists>x. getValue_switch c key = Inr x) \<longleftrightarrow>
      key \<in> {''agent.name'', ''agent.id'', ''agent.erc8004_id'', ''wallet.address'',
              ''wallet.daily_limit'', ''wallet.alert_threshold'',
              ''security.firewall_enabled'', ''security.honeypot_enabled'',
              ''monitoring.dashboard_port''}) \<and>
   (key \<notin> {''agent.name'', ''agent.id'', ''agent.erc8004_id'', ''wallet.address'',
              ''wallet.daily_limit'', ''wallet.alert_threshold'',
              ''security.firewall_enabled'', ''security.honeypot_enabled'',
              ''monitoring.dashboard_port''} \<longrightarrow>
      getValue_switch c key = Inl (UnknownKey key) \<and>
      (\<forall>fs. loadConfig fs = Inr c \<longrightarrow>
         getValue key fs = (Inl (UnknownKey key), fs) \<and>
         main [''acm'', ''get'', key] fs = (1, fs))) \<and>
   ((\<exists>c'. setValue_switch c key v = Inr c') \<longleftrightarrow>
      key \<in> {''api_keys.etherscan'', ''api_keys.basescan'', ''api_keys.openai'',
              ''api_keys.anthropic'', ''api_keys.discord'', ''wallet.daily_limit'',
              ''wallet.alert_threshold'', ''monitoring.webhook_url'',
              ''monitoring.check_interval''}) \<and>
   (key \<notin> {''api_keys.etherscan'', ''api_keys.basescan'', ''api_keys.openai'',
              ''api_keys.anthropic'', ''api_keys.discord'', ''wallet.daily_limit'',
              ''wallet.alert_threshold'', ''monitoring.webhook_url'',
              ''monitoring.check_interval''} \<longrightarrow>
      setValue_switch c key v = Inl (UnknownKey key) \<and>
      (\<forall>fs. loadConfig fs = Inr c \<longrightarrow>
         setValue key v fs = (Inl (UnknownKey key), fs) \<and>
         main [''acm'', ''set'', key, v] fs = (1, fs)))"
proof -
  have g: "getValue_switch c key = Inl (UnknownKey key)"
    if "key \<notin> {''agent.name'', ''agent.id'', ''agent.erc8004_id'', ''wallet.address'',
              ''wallet.daily_limit'', ''wallet.alert_threshold'',
              ''security.firewall_enabled'', ''security.honeypot_enabled'',
              ''monitoring.dashboard_port''}"
    using that unfolding getValue_switch_def by simp
  have g': "\<exists>x. getValue_switch c key = Inr x"
    if "key \<in> {''agent.name'', ''agent.id'', ''agent.erc8004_id'', ''wallet.address'',
              ''wallet.daily_limit'', ''wallet.alert_threshold'',
              ''security.firewall_enabled'', ''security.honeypot_enabled'',
              ''monitoring.dashboard_port''}"
    using that unfolding getValue_switch_def by auto
  have s: "setValue_switch c key v = Inl (UnknownKey key)"
    if "key \<notin> {''api_keys.etherscan'', ''api_keys.basescan'', ''api_keys.openai'',
              ''api_keys.anthropic'', ''api_keys.discord'', ''wallet.daily_limit'',
              ''wallet.alert_threshold'', ''monitoring.webhook_url'',
              ''monitoring.check_interval''}"
    using that unfolding setValue_switch_def by simp
  have s': "\<exists>c'. setValue_switch c key v = Inr c'"
    if "key \<in> {''api_keys.etherscan'', ''api_keys.basescan'', ''api_keys.openai'',
              ''api_keys.anthropic'', ''api_keys.discord'', ''wallet.daily_limit'',
              ''wallet.alert_threshold'', ''monitoring.webhook_url'',
              ''monitoring.check_interval''}"
    using that unfolding setValue_switch_def by (auto simp: Let_def)
  have gc: "key \<notin> {''agent.name'', ''agent.id'', ''agent.erc8004_id'', ''wallet.address'',
              ''wallet.daily_limit'', ''wallet.alert_threshold'',
              ''security.firewall_enabled'', ''security.honeypot_enabled'',
              ''monitoring.dashboard_port''} \<longrightarrow>
      getValue_switch c key = Inl (UnknownKey key) \<and>
      (\<forall>fs. loadConfig fs = Inr c \<longrightarrow>
         getValue key fs = (Inl (UnknownKey key), fs) \<and>
         main [''acm'', ''get'', key] fs = (1, fs))"
  proof
    assume "key \<notin> {''agent.name'', ''agent.id'', ''agent.erc8004_id'', ''wallet.address'',
              ''wallet.daily_limit'', ''wallet.alert_threshold'',
              ''security.firewall_enabled'', ''security.honeypot_enabled'',
              ''monitoring.dashboard_port''}"
    then have u: "getValue_switch c key = Inl (UnknownKey key)" by (rule g)
    then show "getValue_switch c key = Inl (UnknownKey key) \<and>
      (\<forall>fs. loadConfig fs = Inr c \<longrightarrow>
         getValue key fs = (Inl (UnknownKey key), fs) \<and>
         main [''acm'', ''get'', key] fs = (1, fs))"
      by (simp add: getValue_def main_def exit_status_def)
  qed
  have sc: "key \<notin> {''api_keys.etherscan'', ''api_keys.basescan'', ''api_keys.openai'',
              ''api_keys.anthropic'', ''api_keys.discord'', ''wallet.daily_limit'',
              ''wallet.alert_threshold'', ''monitoring.webhook_url'',
              ''monitoring.check_interval''} \<longrightarrow>
      setValue_switch c key v = Inl (UnknownKey key) \<and>
      (\<forall>fs. loadConfig fs = Inr c \<longrightarrow>
         setValue key v fs = (Inl (UnknownKey key), fs) \<and>
         main [''acm'', ''set'', key, v] fs = (1, fs))"
  proof
    assume "key \<notin> {''api_keys.etherscan'', ''api_keys.basescan'', ''api_keys.openai'',
              ''api_keys.anthropic'', ''api_keys.discord'', ''wallet.daily_limit'',
              ''wallet.alert_threshold'', ''monitoring.webhook_url'',
              ''monitoring.check_interval''}"
    then have u: "setValue_switch c key v = Inl (UnknownKey key)" by (rule s)
    then show "setValue_switch c key v = Inl (UnknownKey key) \<and>
      (\<forall>fs. loadConfig fs = Inr c \<longrightarrow>
         setValue key v fs = (Inl (UnknownKey key), fs) \<and>
         main [''acm'', ''set'', key, v] fs = (1, fs))"
      by (simp add: setValue_def main_def exit_status_def)
  qed
  have 1: "(\<exists>x. getValue_switch c key = Inr x) \<longleftrightarrow>
      key \<in> {''agent.name'', ''agent.id'', ''agent.erc8004_id'', ''wallet.address'',
              ''wallet.daily_limit'', ''wallet.alert_threshold'',
              ''security.firewall_enabled'', ''security.honeypot_enabled'',
              ''monitoring.dashboard_port''}"
  proof
    assume "\<exists>x. getValue_switch c key = Inr x"
    then show "key \<in> {''agent.name'', ''agent.id'', ''agent.erc8004_id'', ''wallet.address'',
              ''wallet.daily_limit'', ''wallet.alert_threshold'',
              ''security.firewall_enabled'', ''security.honeypot_enabled'',
              ''monitoring.dashboard_port''}"
      using g by (rule_tac ccontr) auto
  next
    assume "key \<in> {''agent.name'', ''agent.id'', ''agent.erc8004_id'', ''wallet.address'',
              ''wallet.daily_limit'', ''wallet.alert_threshold'',
              ''security.firewall_enabled'', ''security.honeypot_enabled'',
              ''monitoring.dashboard_port''}"
    then show "\<exists>x. getValue_switch c key = Inr x" by (rule g')
  qed
  have 2: "(\<exists>c'. setValue_switch c key v = Inr c') \<longleftrightarrow>
      key \<in> {''api_keys.etherscan'', ''api_keys.basescan'', ''api_keys.openai'',
              ''api_keys.anthropic'', ''api_keys.discord'', ''wallet.daily_limit'',
              ''wallet.alert_threshold'', ''monitoring.webhook_url'',
              ''monitoring.check_interval''}"
  proof
    assume "\<exists>c'. setValue_switch c key v = Inr c'"
    then show "key \<in> {''api_keys.etherscan'', ''api_keys.basescan'', ''api_keys.openai'',
              ''api_keys.anthropic'', ''api_keys.discord'', ''wallet.daily_limit'',
              ''wallet.alert_threshold'', ''monitoring.webhook_url'',
              ''monitoring.check_interval''}"
      using s by (rule_tac ccontr) auto
  next
    assume "key \<in> {''api_keys.etherscan'', ''api_keys.basescan'', ''api_keys.openai'',
              ''api_keys.anthropic'', ''api_keys.discord'', ''wallet.daily_limit'',
              ''wallet.alert_threshold'', ''monitoring.webhook_url'',
              ''monitoring.check_interval''}"
    then show "\<exists>c'. setValue_switch c key v = Inr c'" by (rule s')
  qed
  show ?thesis by (intro conjI) (fact 1, fact gc, fact 2, fact sc)
qed

theorem C1_dispatch_tables_witness:
  "getValue_switch defaultConfig ''wallet.networks'' = Inl (UnknownKey ''wallet.networks'') \<and>
   setValue_switch defaultConfig ''wallet.address'' ''0xABC'' =
     Inl (UnknownKey ''wallet.address'') \<and>
   main [''acm'', ''get'', ''wallet.networks''] (FS_with defaultConfig) =
     (1, FS_with defaultConfig) \<and>
   main [''acm'', ''set'', ''wallet.address'', ''0xABC''] (FS_with defaultConfig) =
     (1, FS_with defaultConfig) \<and>
   (\<exists>x. getValue_switch defaultConfig ''wallet.address'' = Inr x) \<and>
   (\<exists>c'. setValue_switch defaultConfig ''api_keys.openai'' ''K'' = Inr c')"
proof -
  have l: "loadConfig (FS_with defaultConfig) = Inr defaultConfig"
    by (rule loadConfig_FS_with [OF valid_defaultConfig])
  from C1_dispatch_tables [of defaultConfig "''wallet.networks''" "''0xABC''"]
    C1_dispatch_tables [of defaultConfig "''wallet.address''" "''0xABC''"]
    C1_dispatch_tables [of defaultConfig "''api_keys.openai''" "''K''"] l
  show ?thesis by simp
qed

subsection \<open>C2: export\<close>

text \<open>
  C2. For every document that loads, exportConfig succeeds and builds three objects.
  wallet-monitor has exactly the keys address, alert_threshold, basescan_key,
  check_interval, etherscan_key and webhook_url (written in this, sorted, order), with the
  values of wallet.address, wallet.alert_threshold, api_keys.basescan,
  monitoring.check_interval_minutes, api_keys.etherscan and monitoring.webhook_url;
  reputation-scanner has exactly address, basescan_key and etherscan_key from the same
  fields; security-dashboard has exactly port, from monitoring.dashboard_port. Each is
  written to its file under exports/ when that path can be written, and no other file
  changes. Nothing is required of the document: empty strings and zeros are copied as
  they are.
\<close>

theorem C2_export_subsets:
  assumes "loadConfig fs = Inr c"
  shows "\<exists>th fs'.
     marshal_float64 (AlertThreshold (Wallet c)) = Some th \<and>
     marshal_map (walletConfig c) = Some (JObject
          [(''address'', JString (Address (Wallet c))),
           (''alert_threshold'', th),
           (''basescan_key'', JString (Basescan (APIKeys c))),
           (''check_interval'', JInt (sint (CheckInterval (Monitoring c)))),
           (''etherscan_key'', JString (Etherscan (APIKeys c))),
           (''webhook_url'', JString (WebhookURL (Monitoring c)))]) \<and>
     marshal_map (scannerConfig c) = Some (JObject
          [(''address'', JString (Address (Wallet c))),
           (''basescan_key'', JString (Basescan (APIKeys c))),
           (''etherscan_key'', JString (Etherscan (APIKeys c)))]) \<and>
     marshal_map (dashboardConfig c) = Some (JObject
          [(''port'', JInt (sint (DashboardPort (Monitoring c))))]) \<and>
     exportConfig fs = (Inr (), fs') \<and>
     locked fs' = locked fs \<and>
     (\<forall>p. p \<notin> {ExportPath ''wallet-monitor.json'', ExportPath ''reputation-scanner.json'',
               ExportPath ''security-dashboard.json''} \<longrightarrow> files fs' p = files fs p) \<and>
     (ExportPath ''wallet-monitor.json'' \<notin> locked fs \<longrightarrow>
        map_option JSONText (marshal_map (walletConfig c)) =
          files fs' (ExportPath ''wallet-monitor.json'')) \<and>
     (ExportPath ''reputation-scanner.json'' \<notin> locked fs \<longrightarrow>
        map_option JSONText (marshal_map (scannerConfig c)) =
          files fs' (ExportPath ''reputation-scanner.json'')) \<and>
     (ExportPath ''security-dashboard.json'' \<notin> locked fs \<longrightarrow>
        map_option JSONText (marshal_map (dashboardConfig c)) =
          files fs' (ExportPath ''security-dashboard.json''))"
proof -
  note v = loadConfig_valid [OF assms]
  from v have "float64_finite (AlertThreshold (Wallet c))"
    by (simp add: valid_config_def valid_wallet_def)
  then obtain th where th: "marshal_float64 (AlertThreshold (Wallet c)) = Some th"
    by (rule marshal_finite)
  from v have str: "marshal_string (Address (Wallet c)) = JString (Address (Wallet c))"
      "marshal_string (Basescan (APIKeys c)) = JString (Basescan (APIKeys c))"
      "marshal_string (Etherscan (APIKeys c)) = JString (Etherscan (APIKeys c))"
      "marshal_string (WebhookURL (Monitoring c)) = JString (WebhookURL (Monitoring c))"
    by (simp_all add: valid_config_def valid_text_def text_WalletConfig_def
        text_APIKeysConfig_def text_MonitoringConfig_def marshal_string_valid)
  have w: "marshal_map (walletConfig c) = Some (JObject
          [(''address'', JString (Address (Wallet c))),
           (''alert_threshold'', th),
           (''basescan_key'', JString (Basescan (APIKeys c))),
           (''check_interval'', JInt (sint (CheckInterval (Monitoring c)))),
           (''etherscan_key'', JString (Etherscan (APIKeys c))),
           (''webhook_url'', JString (WebhookURL (Monitoring c)))])"
    by (simp add: marshal_map_def sorted_walletConfig marshal_value_def th marshal_int_def str)
  have s: "marshal_map (scannerConfig c) = Some (JObject
          [(''address'', JString (Address (Wallet c))),
           (''basescan_key'', JString (Basescan (APIKeys c))),
           (''etherscan_key'', JString (Etherscan (APIKeys c)))])"
    by (simp add: marshal_map_def sorted_scannerConfig marshal_value_def str)
  have d: "marshal_map (dashboardConfig c) = Some (JObject
          [(''port'', JInt (sint (DashboardPort (Monitoring c))))])"
    by (simp add: marshal_map_def dashboardConfig_def marshal_value_def marshal_int_def)
  show ?thesis
    using assms th
    by (simp add: exportConfig_def exportToolConfig_def WriteFile_def w s d Let_def)
qed

theorem C2_export_subsets_witness:
  "loadConfig (FS_with export_sample) = Inr export_sample \<and>
   files (snd (exportConfig (FS_with export_sample))) (ExportPath ''wallet-monitor.json'') =
     Some (JSONText (JObject
       [(''address'', JString ''0xABC''), (''alert_threshold'', JFrac 0.2),
        (''basescan_key'', JString ''B1''), (''check_interval'', JInt 7),
        (''etherscan_key'', JString ''E1''), (''webhook_url'', JString ''https://x'')])) \<and>
   files (snd (exportConfig (FS_with export_sample))) (ExportPath ''reputation-scanner.json'') =
     Some (JSONText (JObject
       [(''address'', JString ''0xABC''), (''basescan_key'', JString ''B1''),
        (''etherscan_key'', JString ''E1'')])) \<and>
   files (snd (exportConfig (FS_with export_sample))) (ExportPath ''security-dashboard.json'') =
     Some (JSONText (JObject [(''port'', JInt 8080)]))"
proof -
  have l: "loadConfig (FS_with export_sample) = Inr export_sample"
    by (rule loadConfig_FS_with [OF valid_export_sample])
  have f: "\<lfloor>1 / 5 :: rat\<rfloor> = 0" by (simp add: floor_eq_iff)
  have nl: "locked (FS_with export_sample) = {}" by (simp add: FS_with_def)
  from C2_export_subsets [OF l] obtain th fs' where
      *: "marshal_float64 (AlertThreshold (Wallet export_sample)) = Some th"
      "marshal_map (walletConfig export_sample) = Some (JObject
          [(''address'', JString (Address (Wallet export_sample))),
           (''alert_threshold'', th),
           (''basescan_key'', JString (Basescan (APIKeys export_sample))),
           (''check_interval'', JInt (sint (CheckInterval (Monitoring export_sample)))),
           (''etherscan_key'', JString (Etherscan (APIKeys export_sample))),
           (''webhook_url'', JString (WebhookURL (Monitoring export_sample)))])"
      "marshal_map (scannerConfig export_sample) = Some (JObject
          [(''address'', JString (Address (Wallet export_sample))),
           (''basescan_key'', JString (Basescan (APIKeys export_sample))),
           (''etherscan_key'', JString (Etherscan (APIKeys export_sample)))])"
      "marshal_map (dashboardConfig export_sample) = Some (JObject
          [(''port'', JInt (sint (DashboardPort (Monitoring export_sample))))])"
      "exportConfig (FS_with export_sample) = (Inr (), fs')"
      "map_option JSONText (marshal_map (walletConfig export_sample)) =
          files fs' (ExportPath ''wallet-monitor.json'')"
      "map_option JSONText (marshal_map (scannerConfig export_sample)) =
          files fs' (ExportPath ''reputation-scanner.json'')"
      "map_option JSONText (marshal_map (dashboardConfig export_sample)) =
          files fs' (ExportPath ''security-dashboard.json'')"
    unfolding nl by blast
  from *(1) have th: "th = JFrac 0.2"
    by (simp add: export_sample_def defaultConfig_def f)
  have v: "Address (Wallet export_sample) = ''0xABC''"
      "Basescan (APIKeys export_sample) = ''B1''"
      "Etherscan (APIKeys export_sample) = ''E1''"
      "WebhookURL (Monitoring export_sample) = ''https://x''"
      "sint (CheckInterval (Monitoring export_sample)) = 7"
      "sint (DashboardPort (Monitoring export_sample)) = 8080"
    by (simp_all add: export_sample_def defaultConfig_def zero_APIKeysConfig_def)
  from l * th v show ?thesis by simp
qed

subsection \<open>C4: the five checks\<close>

text \<open>
  C4. The issues of validateConfig are the messages of the failed checks among five, in
  this order: wallet address empty; daily limit not above zero; Etherscan key empty;
  Basescan key empty; firewall and honeypot both off. A document failing all five gets
  the five messages in that order, followed in the report by a count of 5; a document
  failing none gets no issue, and the report says the configuration is valid.
\<close>

theorem C4_validate_rules:
  "validate_issues c =
     map snd (filter fst
       [(Address (Wallet c) = [], msg_address),
        (float64_le_zero (DailyLimit (Wallet c)), msg_limit),
        (Etherscan (APIKeys c) = [], msg_etherscan),
        (Basescan (APIKeys c) = [], msg_basescan),
        (\<not> FirewallEnabled (Security c) \<and> \<not> HoneypotEnabled (Security c), msg_security)]) \<and>
   (Address (Wallet c) = [] \<and> float64_le_zero (DailyLimit (Wallet c)) \<and>
    Etherscan (APIKeys c) = [] \<and> Basescan (APIKeys c) = [] \<and>
    \<not> FirewallEnabled (Security c) \<and> \<not> HoneypotEnabled (Security c) \<longrightarrow>
      validate_issues c = [msg_address, msg_limit, msg_etherscan, msg_basescan, msg_security] \<and>
      validate_report (validate_issues c) =
        [magnifier @ '' Validating configuration...'', [],
         msg_address, msg_limit, msg_etherscan, msg_basescan, msg_security,
         [], ''Found 5 issue(s)'']) \<and>
   (Address (Wallet c) \<noteq> [] \<and> \<not> float64_le_zero (DailyLimit (Wallet c)) \<and>
    Etherscan (APIKeys c) \<noteq> [] \<and> Basescan (APIKeys c) \<noteq> [] \<and>
    (FirewallEnabled (Security c) \<or> HoneypotEnabled (Security c)) \<longrightarrow>
      validate_issues c = [] \<and>
      validate_report (validate_issues c) =
        [magnifier @ '' Validating configuration...'', [],
         check_mark @ '' Configuration is valid!''])"
proof -
  have s5: "show_nat (Suc (Suc (Suc (Suc (Suc 0))))) = ''5''" by code_simp
  show ?thesis
    by (simp add: validate_issues_def validate_report_def s5)
qed

theorem C4_validate_rules_witness:
  "validate_issues zero_AgentConfig =
     [msg_address, msg_limit, msg_etherscan, msg_basescan, msg_security] \<and>
   validate_issues sample_config = [] \<and>
   validate_issues defaultConfig = [msg_etherscan, msg_basescan]"
proof -
  have z: "Address (Wallet zero_AgentConfig) = [] \<and>
      float64_le_zero (DailyLimit (Wallet zero_AgentConfig)) \<and>
      Etherscan (APIKeys zero_AgentConfig) = [] \<and> Basescan (APIKeys zero_AgentConfig) = [] \<and>
      \<not> FirewallEnabled (Security zero_AgentConfig) \<and>
      \<not> HoneypotEnabled (Security zero_AgentConfig)"
    by (simp add: zero_AgentConfig_def zero_WalletConfig_def zero_APIKeysConfig_def
        zero_SecurityConfig_def)
  have s: "Address (Wallet sample_config) \<noteq> [] \<and>
      \<not> float64_le_zero (DailyLimit (Wallet sample_config)) \<and>
      Etherscan (APIKeys sample_config) \<noteq> [] \<and> Basescan (APIKeys sample_config) \<noteq> [] \<and>
      (FirewallEnabled (Security sample_config) \<or> HoneypotEnabled (Security sample_config))"
    by (simp add: sample_config_def defaultConfig_def zero_APIKeysConfig_def)
  have d: "validate_issues defaultConfig = [msg_etherscan, msg_basescan]"
    using C4_validate_rules [of defaultConfig]
    by (simp add: defaultConfig_def zero_APIKeysConfig_def)
  from C4_validate_rules [of zero_AgentConfig] z C4_validate_rules [of sample_config] s d
  show ?thesis by blast
qed

subsection \<open>C3: input that is not a number\<close>

text \<open>
  C3. An input that is not a number is not always stored as zero. setValue never looks
  at the result of fmt.Sscanf, which scans a number from the start of the input and
  ignores what follows: \<open>1.5abc\<close>, which strconv.ParseFloat refuses, stores 1.5 as the
  daily limit, and \<open>5.9\<close>, which strconv.Atoi refuses, stores 5 as the check interval.
  \<open>infx\<close> scans as an infinity, which cannot be saved: the command fails with exit
  status 1 and the file is not written.
\<close>

theorem C3_prefix_counterexample:
  "ParseFloat ''1.5abc'' = None \<and>
   setValue_switch defaultConfig ''wallet.daily_limit'' ''1.5abc'' =
     Inr (defaultConfig\<lparr>Wallet := (Wallet defaultConfig)\<lparr>DailyLimit := Finite (3 / 2)\<rparr>\<rparr>) \<and>
   Atoi ''5.9'' = None \<and>
   setValue_switch defaultConfig ''monitoring.check_interval'' ''5.9'' =
     Inr (defaultConfig\<lparr>Monitoring := (Monitoring defaultConfig)\<lparr>CheckInterval := 5\<rparr>\<rparr>) \<and>
   ParseFloat ''infx'' = None \<and>
   main [''acm'', ''set'', ''wallet.daily_limit'', ''infx''] (FS_with defaultConfig) =
     (1, FS_with defaultConfig)"
proof -
  have p: "ParseFloat ''1.5abc'' = None" "Atoi ''5.9'' = None" "ParseFloat ''infx'' = None"
    by code_simp+
  have s: "Sscanf_f ''1.5abc'' = Some (Finite (3 / 2))" "Sscanf_d ''5.9'' = Some 5"
      "Sscanf_f ''infx'' = Some PosInf"
    by code_simp+
  have l: "loadConfig (FS_with defaultConfig) = Inr defaultConfig"
    by (rule loadConfig_FS_with [OF valid_defaultConfig])
  have m: "main [''acm'', ''set'', ''wallet.daily_limit'', ''infx''] (FS_with defaultConfig) =
     (1, FS_with defaultConfig)"
    by (simp add: main_def setValue_def l setValue_switch_def s saveConfig_def
        marshal_AgentConfig_def marshal_WalletConfig_def exit_status_def)
  show ?thesis
    by (simp add: p m setValue_switch_def s)
qed

text \<open>
  C3, as the program has it. On a document that loads and a configuration path that can be written:
  when Sscanf scans no float from the input, \<open>set wallet.daily_limit\<close> and
  \<open>set wallet.alert_threshold\<close> put zero in that field, write the file with \<open>0\<close> under
  \<open>daily_limit\<close>, respectively \<open>alert_threshold\<close>, of \<open>wallet\<close>, and exit with status 0;
  when Sscanf scans no integer from the input, \<open>set monitoring.check_interval\<close> does the
  same with \<open>check_interval_minutes\<close> of \<open>monitoring\<close>. Sscanf scans neither a float nor
  an integer from the empty input, nor from an input that begins with a letter other
  than e, i, n and p.
\<close>

theorem C3_unscanned_is_zero:
  assumes "loadConfig fs = Inr c" and "ConfigPath \<notin> locked fs"
  shows
   "(Sscanf_f v = None \<longrightarrow>
      setValue_switch c ''wallet.daily_limit'' v =
        Inr (c\<lparr>Wallet := (Wallet c)\<lparr>DailyLimit := Finite 0\<rparr>\<rparr>) \<and>
      (\<exists>fs' j w. setValue ''wallet.daily_limit'' v fs = (Inr ''wallet.daily_limit'', fs') \<and>
         main [''acm'', ''set'', ''wallet.daily_limit'', v] fs = (0, fs') \<and>
         files fs' ConfigPath = Some (JSONText j) \<and> json_member ''wallet'' j = Some w \<and>
         json_member ''daily_limit'' w = Some (JInt 0)) \<and>
      setValue_switch c ''wallet.alert_threshold'' v =
        Inr (c\<lparr>Wallet := (Wallet c)\<lparr>AlertThreshold := Finite 0\<rparr>\<rparr>) \<and>
      (\<exists>fs' j w. setValue ''wallet.alert_threshold'' v fs =
                   (Inr ''wallet.alert_threshold'', fs') \<and>
         main [''acm'', ''set'', ''wallet.alert_threshold'', v] fs = (0, fs') \<and>
         files fs' ConfigPath = Some (JSONText j) \<and> json_member ''wallet'' j = Some w \<and>
         json_member ''alert_threshold'' w = Some (JInt 0))) \<and>
    (Sscanf_d v = None \<longrightarrow>
      setValue_switch c ''monitoring.check_interval'' v =
        Inr (c\<lparr>Monitoring := (Monitoring c)\<lparr>CheckInterval := 0\<rparr>\<rparr>) \<and>
      (\<exists>fs' j m. setValue ''monitoring.check_interval'' v fs =
                   (Inr ''monitoring.check_interval'', fs') \<and>
         main [''acm'', ''set'', ''monitoring.check_interval'', v] fs = (0, fs') \<and>
         files fs' ConfigPath = Some (JSONText j) \<and> json_member ''monitoring'' j = Some m \<and>
         json_member ''check_interval_minutes'' m = Some (JInt 0))) \<and>
    (v = [] \<or> hd v \<in> set ''abcdfghjklmoqrstuvwxyzABCDFGHJKLMOQRSTUVWXYZ'' \<longrightarrow>
      Sscanf_f v = None \<and> Sscanf_d v = None)"
proof -
  from loadConfig_valid [OF assms(1)]
  have fin: "float64_finite (DailyLimit (Wallet c))" "float64_finite (AlertThreshold (Wallet c))"
    by (simp_all add: valid_config_def valid_wallet_def)
  have z: "float64_finite (Finite 0)" by (simp add: float64_overflow_def)
  have a: "setValue_switch c ''wallet.daily_limit'' v =
        Inr (c\<lparr>Wallet := (Wallet c)\<lparr>DailyLimit := Finite 0\<rparr>\<rparr>) \<and>
      (\<exists>fs' j w. setValue ''wallet.daily_limit'' v fs = (Inr ''wallet.daily_limit'', fs') \<and>
         main [''acm'', ''set'', ''wallet.daily_limit'', v] fs = (0, fs') \<and>
         files fs' ConfigPath = Some (JSONText j) \<and> json_member ''wallet'' j = Some w \<and>
         json_member ''daily_limit'' w = Some (JInt 0))"
    if "Sscanf_f v = None"
  proof -
    let ?c' = "c\<lparr>Wallet := (Wallet c)\<lparr>DailyLimit := Finite 0\<rparr>\<rparr>"
    from that have s: "setValue_switch c ''wallet.daily_limit'' v = Inr ?c'"
      by (simp add: setValue_switch_def)
    from fin z obtain j where j: "marshal_AgentConfig ?c' = Some j"
      by (rule_tac c = ?c' in marshal_defined) simp_all
    from member_wallet [OF j] obtain w where "json_member ''wallet'' j = Some w"
        "json_member ''daily_limit'' w = Some (JInt 0)"
      by auto
    with s set_runs [OF assms s j] show ?thesis by simp
  qed
  have b: "setValue_switch c ''wallet.alert_threshold'' v =
        Inr (c\<lparr>Wallet := (Wallet c)\<lparr>AlertThreshold := Finite 0\<rparr>\<rparr>) \<and>
      (\<exists>fs' j w. setValue ''wallet.alert_threshold'' v fs =
                   (Inr ''wallet.alert_threshold'', fs') \<and>
         main [''acm'', ''set'', ''wallet.alert_threshold'', v] fs = (0, fs') \<and>
         files fs' ConfigPath = Some (JSONText j) \<and> json_member ''wallet'' j = Some w \<and>
         json_member ''alert_threshold'' w = Some (JInt 0))"
    if "Sscanf_f v = None"
  proof -
    let ?c' = "c\<lparr>Wallet := (Wallet c)\<lparr>AlertThreshold := Finite 0\<rparr>\<rparr>"
    from that have s: "setValue_switch c ''wallet.alert_threshold'' v = Inr ?c'"
      by (simp add: setValue_switch_def)
    from fin z obtain j where j: "marshal_AgentConfig ?c' = Some j"
      by (rule_tac c = ?c' in marshal_defined) simp_all
    from member_wallet [OF j] obtain w where "json_member ''wallet'' j = Some w"
        "json_member ''alert_threshold'' w = Some (JInt 0)"
      by auto
    with s set_runs [OF assms s j] show ?thesis by simp
  qed
  have d: "setValue_switch c ''monitoring.check_interval'' v =
        Inr (c\<lparr>Monitoring := (Monitoring c)\<lparr>CheckInterval := 0\<rparr>\<rparr>) \<and>
      (\<exists>fs' j m. setValue ''monitoring.check_interval'' v fs =
                   (Inr ''monitoring.check_interval'', fs') \<and>
         main [''acm'', ''set'', ''monitoring.check_interval'', v] fs = (0, fs') \<and>
         files fs' ConfigPath = Some (JSONText j) \<and> json_member ''monitoring'' j = Some m \<and>
         json_member ''check_interval_minutes'' m = Some (JInt 0))"
    if "Sscanf_d v = None"
  proof -
    let ?c' = "c\<lparr>Monitoring := (Monitoring c)\<lparr>CheckInterval := 0\<rparr>\<rparr>"
    from that have s: "setValue_switch c ''monitoring.check_interval'' v = Inr ?c'"
      by (simp add: setValue_switch_def)
    from fin obtain j where j: "marshal_AgentConfig ?c' = Some j"
      by (rule_tac c = ?c' in marshal_defined) simp_all
    from member_monitoring [OF j] obtain m where "json_member ''monitoring'' j = Some m"
        "json_member ''check_interval_minutes'' m = Some (JInt 0)"
      by auto
    with s set_runs [OF assms s j] show ?thesis by simp
  qed
  have e: "Sscanf_f v = None \<and> Sscanf_d v = None"
    if "v = [] \<or> hd v \<in> set ''abcdfghjklmoqrstuvwxyzABCDFGHJKLMOQRSTUVWXYZ''"
  proof (cases v)
    case Nil
    then show ?thesis by (simp add: Sscanf_f_Nil Sscanf_d_Nil)
  next
    case (Cons x xs)
    with that have "x \<in> set ''abcdfghjklmoqrstuvwxyzABCDFGHJKLMOQRSTUVWXYZ''" by simp
    with Cons show ?thesis by (simp only: Sscanf_f_letter Sscanf_d_letter)
  qed
  from a b d e show ?thesis by blast
qed

theorem C3_unscanned_is_zero_witness:
  "loadConfig (FS_with defaultConfig) = Inr defaultConfig \<and>
   ConfigPath \<notin> locked (FS_with defaultConfig) \<and>
   Sscanf_f ''not-a-number'' = None \<and> Sscanf_d ''not-a-number'' = None \<and>
   setValue_switch defaultConfig ''wallet.daily_limit'' ''not-a-number'' =
     Inr (defaultConfig\<lparr>Wallet := (Wallet defaultConfig)\<lparr>DailyLimit := Finite 0\<rparr>\<rparr>) \<and>
   fst (main [''acm'', ''set'', ''wallet.daily_limit'', ''not-a-number'']
          (FS_with defaultConfig)) = 0 \<and>
   setValue_switch defaultConfig ''monitoring.check_interval'' ''not-a-number'' =
     Inr (defaultConfig\<lparr>Monitoring := (Monitoring defaultConfig)\<lparr>CheckInterval := 0\<rparr>\<rparr>) \<and>
   fst (main [''acm'', ''set'', ''monitoring.check_interval'', ''not-a-number'']
          (FS_with defaultConfig)) = 0 \<and>
   Sscanf_f ''abc'' = None \<and> Sscanf_d ''abc'' = None"
proof -
  have l: "loadConfig (FS_with defaultConfig) = Inr defaultConfig"
    by (rule loadConfig_FS_with [OF valid_defaultConfig])
  have n: "ConfigPath \<notin> locked (FS_with defaultConfig)" by (simp add: FS_with_def)
  have f: "Sscanf_f ''not-a-number'' = None" by code_simp
  have d: "Sscanf_d ''not-a-number'' = None" by code_simp
  have h: "hd ''abc'' \<in> set ''abcdfghjklmoqrstuvwxyzABCDFGHJKLMOQRSTUVWXYZ''" by simp
  from C3_unscanned_is_zero [OF l n, of "''not-a-number''"]
    C3_unscanned_is_zero [OF l n, of "''abc''"] l n f d h
  show ?thesis by auto
qed

subsection \<open>C7: set changes one field\<close>

text \<open>
  C7. When the switch of setValue succeeds, the changed document differs from the given
  one at most in the field the key names: version, agent and security are the same, and
  so is every field of wallet, api_keys and monitoring other than the one addressed. The
  command writes no file other than the configuration file, whatever its outcome, and
  writes nothing at all when it fails.
\<close>

theorem C7_set_frame:
  assumes "setValue_switch c key v = Inr c'"
  shows "Version c' = Version c \<and> Agent c' = Agent c \<and> Security c' = Security c \<and>
    Address (Wallet c') = Address (Wallet c) \<and>
    Networks (Wallet c') = Networks (Wallet c) \<and>
    (key \<noteq> ''wallet.daily_limit'' \<longrightarrow> DailyLimit (Wallet c') = DailyLimit (Wallet c)) \<and>
    (key \<noteq> ''wallet.alert_threshold'' \<longrightarrow>
       AlertThreshold (Wallet c') = AlertThreshold (Wallet c)) \<and>
    (key \<noteq> ''api_keys.etherscan'' \<longrightarrow> Etherscan (APIKeys c') = Etherscan (APIKeys c)) \<and>
    (key \<noteq> ''api_keys.basescan'' \<longrightarrow> Basescan (APIKeys c') = Basescan (APIKeys c)) \<and>
    (key \<noteq> ''api_keys.openai'' \<longrightarrow> OpenAI (APIKeys c') = OpenAI (APIKeys c)) \<and>
    (key \<noteq> ''api_keys.anthropic'' \<longrightarrow> Anthropic (APIKeys c') = Anthropic (APIKeys c)) \<and>
    (key \<noteq> ''api_keys.discord'' \<longrightarrow> Discord (APIKeys c') = Discord (APIKeys c)) \<and>
    DashboardEnabled (Monitoring c') = DashboardEnabled (Monitoring c) \<and>
    DashboardPort (Monitoring c') = DashboardPort (Monitoring c) \<and>
    (key \<noteq> ''monitoring.webhook_url'' \<longrightarrow>
       WebhookURL (Monitoring c') = WebhookURL (Monitoring c)) \<and>
    (key \<noteq> ''monitoring.check_interval'' \<longrightarrow>
       CheckInterval (Monitoring c') = CheckInterval (Monitoring c)) \<and>
    (\<forall>fs r fs'. setValue key v fs = (r, fs') \<longrightarrow>
       locked fs' = locked fs \<and>
       (\<forall>p. p \<noteq> ConfigPath \<longrightarrow> files fs' p = files fs p) \<and>
       ((\<exists>e. r = Inl e) \<longrightarrow> fs' = fs))"
proof -
  have onfile: "locked fs' = locked fs \<and>
       (\<forall>p. p \<noteq> ConfigPath \<longrightarrow> files fs' p = files fs p) \<and>
       ((\<exists>e. r = Inl e) \<longrightarrow> fs' = fs)"
    if s: "setValue key v fs = (r, fs')" for fs r fs'
  proof (cases r)
    case (Inl e)
    with s have "fs' = fs"
      by (auto simp: setValue_def split: sum.splits)
    then show ?thesis by simp
  next
    case (Inr k)
    with s obtain d where sv: "saveConfig d fs = Inr fs'"
      by (auto simp: setValue_def split: sum.splits)
    then obtain j where "fs' = fs\<lparr>files := (files fs)(ConfigPath \<mapsto> JSONText j)\<rparr>"
      by (auto simp: saveConfig_def WriteFile_def split: option.splits if_splits)
    with Inr show ?thesis by simp
  qed
  from assms have "Version c' = Version c \<and> Agent c' = Agent c \<and> Security c' = Security c \<and>
    Address (Wallet c') = Address (Wallet c) \<and>
    Networks (Wallet c') = Networks (Wallet c) \<and>
    (key \<noteq> ''wallet.daily_limit'' \<longrightarrow> DailyLimit (Wallet c') = DailyLimit (Wallet c)) \<and>
    (key \<noteq> ''wallet.alert_threshold'' \<longrightarrow>
       AlertThreshold (Wallet c') = AlertThreshold (Wallet c)) \<and>
    (key \<noteq> ''api_keys.etherscan'' \<longrightarrow> Etherscan (APIKeys c') = Etherscan (APIKeys c)) \<and>
    (key \<noteq> ''api_keys.basescan'' \<longrightarrow> Basescan (APIKeys c') = Basescan (APIKeys c)) \<and>
    (key \<noteq> ''api_keys.openai'' \<longrightarrow> OpenAI (APIKeys c') = OpenAI (APIKeys c)) \<and>
    (key \<noteq> ''api_keys.anthropic'' \<longrightarrow> Anthropic (APIKeys c') = Anthropic (APIKeys c)) \<and>
    (key \<noteq> ''api_keys.discord'' \<longrightarrow> Discord (APIKeys c') = Discord (APIKeys c)) \<and>
    DashboardEnabled (Monitoring c') = DashboardEnabled (Monitoring c) \<and>
    DashboardPort (Monitoring c') = DashboardPort (Monitoring c) \<and>
    (key \<noteq> ''monitoring.webhook_url'' \<longrightarrow>
       WebhookURL (Monitoring c') = WebhookURL (Monitoring c)) \<and>
    (key \<noteq> ''monitoring.check_interval'' \<longrightarrow>
       CheckInterval (Monitoring c') = CheckInterval (Monitoring c))"
    unfolding setValue_switch_def by (auto simp: Let_def split: if_splits)
  with onfile show ?thesis by blast
qed

theorem C7_set_frame_witness:
  "setValue_switch defaultConfig ''api_keys.etherscan'' ''E1'' =
     Inr (defaultConfig\<lparr>APIKeys := zero_APIKeysConfig\<lparr>Etherscan := ''E1''\<rparr>\<rparr>) \<and>
   Wallet (defaultConfig\<lparr>APIKeys := zero_APIKeysConfig\<lparr>Etherscan := ''E1''\<rparr>\<rparr>) =
     Wallet defaultConfig \<and>
   Basescan (APIKeys (defaultConfig\<lparr>APIKeys := zero_APIKeysConfig\<lparr>Etherscan := ''E1''\<rparr>\<rparr>)) =
     Basescan (APIKeys defaultConfig) \<and>
   locked (snd (setValue ''api_keys.etherscan'' ''E1'' (FS_with defaultConfig))) =
     locked (FS_with defaultConfig) \<and>
   files (snd (setValue ''api_keys.etherscan'' ''E1'' (FS_with defaultConfig)))
     (ExportPath ''wallet-monitor.json'') = None"
proof -
  let ?c' = "defaultConfig\<lparr>APIKeys := zero_APIKeysConfig\<lparr>Etherscan := ''E1''\<rparr>\<rparr>"
  let ?fs = "FS_with defaultConfig"
  have s: "setValue_switch defaultConfig ''api_keys.etherscan'' ''E1'' = Inr ?c'"
    by (simp add: setValue_switch_def defaultConfig_def)
  have n: "files ?fs (ExportPath ''wallet-monitor.json'') = None"
    by (simp add: FS_with_def split: option.splits)
  have r: "setValue ''api_keys.etherscan'' ''E1'' ?fs =
      (fst (setValue ''api_keys.etherscan'' ''E1'' ?fs),
       snd (setValue ''api_keys.etherscan'' ''E1'' ?fs))"
    by simp
  from C7_set_frame [OF s] r have
    "locked (snd (setValue ''api_keys.etherscan'' ''E1'' ?fs)) = locked ?fs \<and>
     (\<forall>p. p \<noteq> ConfigPath \<longrightarrow>
        files (snd (setValue ''api_keys.etherscan'' ''E1'' ?fs)) p = files ?fs p)"
    by blast
  with s n show ?thesis by (simp add: defaultConfig_def)
qed

subsection \<open>C10: input that begins with a number\<close>

text \<open>
  C10. A numeric prefix is not always what is stored. In \<open>1ex\<close> the prefix \<open>1\<close> is a
  number, which strconv.ParseFloat accepts, and \<open>ex\<close> is not; but the float token of
  Sscanf takes the exponent mark with the digits, \<open>1e\<close> is not a number, Sscanf stores
  nothing and the daily limit becomes zero.
\<close>

theorem C10_exponent_counterexample:
  "ParseFloat ''1'' = Some (Finite 1) \<and>
   floatToken ''1ex'' = ''1e'' \<and>
   Sscanf_f ''1ex'' = None \<and>
   setValue_switch defaultConfig ''wallet.daily_limit'' ''1ex'' =
     Inr (defaultConfig\<lparr>Wallet := (Wallet defaultConfig)\<lparr>DailyLimit := Finite 0\<rparr>\<rparr>)"
proof -
  have p: "ParseFloat ''1'' = Some (Finite 1)" by code_simp
  have t: "floatToken ''1ex'' = ''1e''" by code_simp
  have s: "Sscanf_f ''1ex'' = None" by code_simp
  show ?thesis by (simp add: p t s setValue_switch_def)
qed

text \<open>
  C10, as the program has it. What Sscanf scans is what is stored, and zero is stored
  only when it scans nothing. Let the input begin with decimal digits, or with decimal digits, a point
  and decimal digits (none, or more). For \<open>wallet.daily_limit\<close> and
  \<open>wallet.alert_threshold\<close>: when what follows is nothing or begins with a character
  other than a digit, \<open>_\<close>, \<open>.\<close>, \<open>e\<close>, \<open>E\<close>, \<open>p\<close> and \<open>P\<close> (and, right after the
  single digit \<open>0\<close>, other than \<open>x\<close> and \<open>X\<close>), and the number is in the range of
  float64, the number is stored. For \<open>monitoring.check_interval\<close>:
  when what follows the digits is nothing or begins with a character that is not a
  digit, and the number is below \<open>2^63\<close>, the number is stored.
\<close>

theorem C10_numeric_prefix:
  assumes "ip \<noteq> []" and "set ip \<subseteq> set decimalDigits" and "set fp \<subseteq> set decimalDigits"
    and "rest = [] \<or> hd rest \<notin> set ''0123456789_.eEpP''"
    and "r = [] \<or> hd r \<notin> set ''0123456789''"
  shows
   "(\<not> float64_overflow (of_int (digits_val 10 ip)) \<and>
     (ip = ''0'' \<longrightarrow> rest = [] \<or> hd rest \<notin> set ''xX'') \<longrightarrow>
      setValue_switch c ''wallet.daily_limit'' (ip @ rest) =
        Inr (c\<lparr>Wallet := (Wallet c)\<lparr>DailyLimit := Finite (of_int (digits_val 10 ip))\<rparr>\<rparr>) \<and>
      setValue_switch c ''wallet.alert_threshold'' (ip @ rest) =
        Inr (c\<lparr>Wallet := (Wallet c)\<lparr>AlertThreshold := Finite (of_int (digits_val 10 ip))\<rparr>\<rparr>)) \<and>
    (\<not> float64_overflow (of_int (digits_val 10 (ip @ fp)) / 10 ^ length fp) \<longrightarrow>
      setValue_switch c ''wallet.daily_limit'' (ip @ ''.'' @ fp @ rest) =
        Inr (c\<lparr>Wallet := (Wallet c)
               \<lparr>DailyLimit := Finite (of_int (digits_val 10 (ip @ fp)) / 10 ^ length fp)\<rparr>\<rparr>) \<and>
      setValue_switch c ''wallet.alert_threshold'' (ip @ ''.'' @ fp @ rest) =
        Inr (c\<lparr>Wallet := (Wallet c)
               \<lparr>AlertThreshold := Finite (of_int (digits_val 10 (ip @ fp)) / 10 ^ length fp)\<rparr>\<rparr>)) \<and>
    (digits_val 10 ip < 2 ^ 63 \<longrightarrow>
      setValue_switch c ''monitoring.check_interval'' (ip @ r) =
        Inr (c\<lparr>Monitoring := (Monitoring c)
               \<lparr>CheckInterval := word_of_int (digits_val 10 ip)\<rparr>\<rparr>)) \<and>
    (Sscanf_f v = Some f \<longrightarrow>
      setValue_switch c ''wallet.daily_limit'' v =
        Inr (c\<lparr>Wallet := (Wallet c)\<lparr>DailyLimit := f\<rparr>\<rparr>) \<and>
      setValue_switch c ''wallet.alert_threshold'' v =
        Inr (c\<lparr>Wallet := (Wallet c)\<lparr>AlertThreshold := f\<rparr>\<rparr>)) \<and>
    (Sscanf_d v = Some i \<longrightarrow>
      setValue_switch c ''monitoring.check_interval'' v =
        Inr (c\<lparr>Monitoring := (Monitoring c)\<lparr>CheckInterval := i\<rparr>\<rparr>))"
proof -
  have rest: "rest = [] \<or> hd rest \<notin> set (decimalDigits @ ''_.eEpP'')"
    using assms(4) by (simp add: decimalDigits_def)
  have r: "r = [] \<or> hd r \<notin> set decimalDigits"
    using assms(5) by (simp add: decimalDigits_def)
  have a: "Sscanf_f (ip @ rest) = Some (Finite (of_int (digits_val 10 ip)))"
    if "\<not> float64_overflow (of_int (digits_val 10 ip))"
      and "ip = ''0'' \<longrightarrow> rest = [] \<or> hd rest \<notin> set ''xX''"
    using Sscanf_f_number [OF assms(1,2), of "[]" "[]" rest] rest that by simp
  have pw: "power_int 10 (- int (length fp)) = 1 / (10 ^ length fp :: rat)"
    by (simp add: power_int_minus field_simps)
  have b: "Sscanf_f (ip @ ''.'' @ fp @ rest) =
             Some (Finite (of_int (digits_val 10 (ip @ fp)) / 10 ^ length fp))"
    if "\<not> float64_overflow (of_int (digits_val 10 (ip @ fp)) / 10 ^ length fp)"
    using Sscanf_f_number [OF assms(1,2), of "CHR ''.'' # fp" fp rest] rest assms(3) that
    by (simp add: pw)
  have d: "Sscanf_d (ip @ r) = Some (word_of_int (digits_val 10 ip))"
    if "digits_val 10 ip < 2 ^ 63"
    using Sscanf_d_number [OF assms(1,2) r, of "[]"] that digits_val_nonneg [OF assms(2)]
    by simp
  have A: "\<not> float64_overflow (of_int (digits_val 10 ip)) \<and>
     (ip = ''0'' \<longrightarrow> rest = [] \<or> hd rest \<notin> set ''xX'') \<longrightarrow>
      setValue_switch c ''wallet.daily_limit'' (ip @ rest) =
        Inr (c\<lparr>Wallet := (Wallet c)\<lparr>DailyLimit := Finite (of_int (digits_val 10 ip))\<rparr>\<rparr>) \<and>
      setValue_switch c ''wallet.alert_threshold'' (ip @ rest) =
        Inr (c\<lparr>Wallet := (Wallet c)\<lparr>AlertThreshold := Finite (of_int (digits_val 10 ip))\<rparr>\<rparr>)"
    using a by (simp add: setValue_switch_def)
  have B: "\<not> float64_overflow (of_int (digits_val 10 (ip @ fp)) / 10 ^ length fp) \<longrightarrow>
      setValue_switch c ''wallet.daily_limit'' (ip @ ''.'' @ fp @ rest) =
        Inr (c\<lparr>Wallet := (Wallet c)
               \<lparr>DailyLimit := Finite (of_int (digits_val 10 (ip @ fp)) / 10 ^ length fp)\<rparr>\<rparr>) \<and>
      setValue_switch c ''wallet.alert_threshold'' (ip @ ''.'' @ fp @ rest) =
        Inr (c\<lparr>Wallet := (Wallet c)
               \<lparr>AlertThreshold := Finite (of_int (digits_val 10 (ip @ fp)) / 10 ^ length fp)\<rparr>\<rparr>)"
    using b by (simp add: setValue_switch_def)
  have D: "digits_val 10 ip < 2 ^ 63 \<longrightarrow>
      setValue_switch c ''monitoring.check_interval'' (ip @ r) =
        Inr (c\<lparr>Monitoring := (Monitoring c)
               \<lparr>CheckInterval := word_of_int (digits_val 10 ip)\<rparr>\<rparr>)"
    using d by (simp add: setValue_switch_def)
  have F: "Sscanf_f v = Some f \<longrightarrow>
      setValue_switch c ''wallet.daily_limit'' v =
        Inr (c\<lparr>Wallet := (Wallet c)\<lparr>DailyLimit := f\<rparr>\<rparr>) \<and>
      setValue_switch c ''wallet.alert_threshold'' v =
        Inr (c\<lparr>Wallet := (Wallet c)\<lparr>AlertThreshold := f\<rparr>\<rparr>)"
    by (simp add: setValue_switch_def)
  have I: "Sscanf_d v = Some i \<longrightarrow>
      setValue_switch c ''monitoring.check_interval'' v =
        Inr (c\<lparr>Monitoring := (Monitoring c)\<lparr>CheckInterval := i\<rparr>\<rparr>)"
    by (simp add: setValue_switch_def)
  show ?thesis
    by (intro conjI) (fact A, fact B, fact D, fact F, fact I)
qed

theorem C10_numeric_prefix_witness:
  "setValue_switch defaultConfig ''wallet.daily_limit'' ''1.5abc'' =
     Inr (defaultConfig\<lparr>Wallet := (Wallet defaultConfig)\<lparr>DailyLimit := Finite (3 / 2)\<rparr>\<rparr>) \<and>
   setValue_switch defaultConfig ''wallet.alert_threshold'' ''7x'' =
     Inr (defaultConfig\<lparr>Wallet := (Wallet defaultConfig)\<lparr>AlertThreshold := Finite 7\<rparr>\<rparr>) \<and>
   setValue_switch defaultConfig ''monitoring.check_interval'' ''7x'' =
     Inr (defaultConfig\<lparr>Monitoring := (Monitoring defaultConfig)\<lparr>CheckInterval := 7\<rparr>\<rparr>) \<and>
   Sscanf_f ''2e3 a day'' = Some (Finite 2000) \<and>
   setValue_switch defaultConfig ''wallet.daily_limit'' ''2e3 a day'' =
     Inr (defaultConfig\<lparr>Wallet := (Wallet defaultConfig)\<lparr>DailyLimit := Finite 2000\<rparr>\<rparr>) \<and>
   Sscanf_d ''-12min'' = Some (- 12) \<and>
   setValue_switch defaultConfig ''monitoring.check_interval'' ''-12min'' =
     Inr (defaultConfig\<lparr>Monitoring := (Monitoring defaultConfig)\<lparr>CheckInterval := - 12\<rparr>\<rparr>)"
proof -
  have sf: "Sscanf_f ''2e3 a day'' = Some (Finite 2000)" by code_simp
  have sd: "Sscanf_d ''-12min'' = Some (- 12)" by code_simp
  have v: "digits_val 10 ''15'' = 15" "digits_val 10 ''1'' = 1" "digits_val 10 ''7'' = 7"
    by (simp_all add: digits_val_def digit_val_def)
  have h: "''1'' \<noteq> []" "set ''1'' \<subseteq> set decimalDigits" "set ''5'' \<subseteq> set decimalDigits"
      "''abc'' = [] \<or> hd ''abc'' \<notin> set ''0123456789_.eEpP''"
      "''x'' = [] \<or> hd ''x'' \<notin> set ''0123456789''"
      "''7'' \<noteq> []" "set ''7'' \<subseteq> set decimalDigits"
      "''x'' = [] \<or> hd ''x'' \<notin> set ''0123456789_.eEpP''"
    by (simp_all add: decimalDigits_def)
  have o: "\<not> float64_overflow (15 / 10)" "\<not> float64_overflow 7"
    by (simp_all add: float64_overflow_def)
  note t1 = C10_numeric_prefix [OF h(1,2,3,4,5), of defaultConfig]
  note t2 = C10_numeric_prefix [OF h(6,7,3,8,5), of defaultConfig]
  from t1 o(1) have 1: "setValue_switch defaultConfig ''wallet.daily_limit'' ''1.5abc'' =
     Inr (defaultConfig\<lparr>Wallet := (Wallet defaultConfig)\<lparr>DailyLimit := Finite (3 / 2)\<rparr>\<rparr>)"
    by (simp add: v)
  from t2 o(2) have 2: "setValue_switch defaultConfig ''wallet.alert_threshold'' ''7x'' =
     Inr (defaultConfig\<lparr>Wallet := (Wallet defaultConfig)\<lparr>AlertThreshold := Finite 7\<rparr>\<rparr>)"
    by (simp add: v)
  from t2 have 3: "setValue_switch defaultConfig ''monitoring.check_interval'' ''7x'' =
     Inr (defaultConfig\<lparr>Monitoring := (Monitoring defaultConfig)\<lparr>CheckInterval := 7\<rparr>\<rparr>)"
    by (simp add: v)
  from C10_numeric_prefix [OF h(1,2,3,4,5),
      where c = defaultConfig and v = "''2e3 a day''" and f = "Finite 2000"] sf
  have 4: "setValue_switch defaultConfig ''wallet.daily_limit'' ''2e3 a day'' =
     Inr (defaultConfig\<lparr>Wallet := (Wallet defaultConfig)\<lparr>DailyLimit := Finite 2000\<rparr>\<rparr>)"
    by blast
  from C10_numeric_prefix [OF h(1,2,3,4,5),
      where c = defaultConfig and v = "''-12min''" and i = "- 12"] sd
  have 5: "setValue_switch defaultConfig ''monitoring.check_interval'' ''-12min'' =
     Inr (defaultConfig\<lparr>Monitoring := (Monitoring defaultConfig)\<lparr>CheckInterval := - 12\<rparr>\<rparr>)"
    by blast
  from 1 2 3 sf 4 sd 5 show ?thesis by (intro conjI)
qed

end
